theory Spec2Isabelle
  imports Complex_Main
begin

section \<open>JavaScript numbers\<close>

text \<open>
  A JavaScript number is either a finite value or one of the three special values
  \<open>Infinity\<close>, \<open>-Infinity\<close> and \<open>NaN\<close>. Finite values are modelled as reals:
  rounding and overflow of the 64-bit format are not modelled, and zero is unsigned.
  The special values are kept, because the program divides by a duration that can be
  zero and converts text that may not be a number.
\<close>

datatype jsnum = Fin real | PInf | NInf | NaN

fun js_neg :: "jsnum \<Rightarrow> jsnum" where
  "js_neg (Fin a) = Fin (- a)"
| "js_neg PInf = NInf"
| "js_neg NInf = PInf"
| "js_neg NaN = NaN"

fun js_add :: "jsnum \<Rightarrow> jsnum \<Rightarrow> jsnum" where
  "js_add (Fin a) (Fin b) = Fin (a + b)"
| "js_add NaN _ = NaN"
| "js_add _ NaN = NaN"
| "js_add PInf NInf = NaN"
| "js_add NInf PInf = NaN"
| "js_add PInf _ = PInf"
| "js_add _ PInf = PInf"
| "js_add NInf _ = NInf"
| "js_add _ NInf = NInf"

definition js_sub :: "jsnum \<Rightarrow> jsnum \<Rightarrow> jsnum" where
  "js_sub a b = js_add a (js_neg b)"

text \<open>The sign of an infinite product or quotient: \<open>s\<close> says whether it is positive.\<close>

definition js_inf :: "bool \<Rightarrow> jsnum" where
  "js_inf s = (if s then PInf else NInf)"

fun js_mul :: "jsnum \<Rightarrow> jsnum \<Rightarrow> jsnum" where
  "js_mul (Fin a) (Fin b) = Fin (a * b)"
| "js_mul NaN _ = NaN"
| "js_mul _ NaN = NaN"
| "js_mul PInf (Fin b) = (if b = 0 then NaN else js_inf (0 < b))"
| "js_mul NInf (Fin b) = (if b = 0 then NaN else js_inf (b < 0))"
| "js_mul (Fin a) PInf = (if a = 0 then NaN else js_inf (0 < a))"
| "js_mul (Fin a) NInf = (if a = 0 then NaN else js_inf (a < 0))"
| "js_mul PInf PInf = PInf"
| "js_mul NInf NInf = PInf"
| "js_mul PInf NInf = NInf"
| "js_mul NInf PInf = NInf"

text \<open>
  Division never raises: a finite non-zero value divided by zero is infinite, and
  \<open>0 / 0\<close> is \<open>NaN\<close>.
\<close>

fun js_div :: "jsnum \<Rightarrow> jsnum \<Rightarrow> jsnum" where
  "js_div (Fin a) (Fin b) =
     (if b \<noteq> 0 then Fin (a / b)
      else if 0 < a then PInf else if a < 0 then NInf else NaN)"
| "js_div NaN _ = NaN"
| "js_div _ NaN = NaN"
| "js_div (Fin a) PInf = Fin 0"
| "js_div (Fin a) NInf = Fin 0"
| "js_div PInf (Fin b) = js_inf (0 \<le> b)"
| "js_div NInf (Fin b) = js_inf (b < 0)"
| "js_div PInf PInf = NaN"
| "js_div PInf NInf = NaN"
| "js_div NInf PInf = NaN"
| "js_div NInf NInf = NaN"

text \<open>Every comparison with \<open>NaN\<close> is false.\<close>

fun js_lt :: "jsnum \<Rightarrow> jsnum \<Rightarrow> bool" where
  "js_lt (Fin a) (Fin b) = (a < b)"
| "js_lt NaN _ = False"
| "js_lt _ NaN = False"
| "js_lt _ NInf = False"
| "js_lt PInf _ = False"
| "js_lt NInf _ = True"
| "js_lt _ PInf = True"

fun js_le :: "jsnum \<Rightarrow> jsnum \<Rightarrow> bool" where
  "js_le (Fin a) (Fin b) = (a \<le> b)"
| "js_le NaN _ = False"
| "js_le _ NaN = False"
| "js_le NInf _ = True"
| "js_le _ PInf = True"
| "js_le _ NInf = False"
| "js_le PInf _ = False"

definition js_gt :: "jsnum \<Rightarrow> jsnum \<Rightarrow> bool" where
  "js_gt a b = js_lt b a"

definition js_ge :: "jsnum \<Rightarrow> jsnum \<Rightarrow> bool" where
  "js_ge a b = js_le b a"

fun js_floor :: "jsnum \<Rightarrow> jsnum" where
  "js_floor (Fin a) = Fin (of_int \<lfloor>a\<rfloor>)"
| "js_floor PInf = PInf"
| "js_floor NInf = NInf"
| "js_floor NaN = NaN"

fun js_sqrt :: "jsnum \<Rightarrow> jsnum" where
  "js_sqrt (Fin a) = (if a < 0 then NaN else Fin (sqrt a))"
| "js_sqrt PInf = PInf"
| "js_sqrt NInf = NaN"
| "js_sqrt NaN = NaN"

fun js_min :: "jsnum \<Rightarrow> jsnum \<Rightarrow> jsnum" where
  "js_min NaN _ = NaN"
| "js_min _ NaN = NaN"
| "js_min a b = (if js_lt b a then b else a)"

text \<open>\<open>v || d\<close> on numbers: zero and \<open>NaN\<close> are falsy.\<close>

definition js_or :: "jsnum \<Rightarrow> jsnum \<Rightarrow> jsnum" where
  "js_or v d = (if v = Fin 0 \<or> v = NaN then d else v)"

fun js_atan2 :: "jsnum \<Rightarrow> jsnum \<Rightarrow> jsnum" where
  "js_atan2 (Fin b) (Fin a) =
     Fin (if 0 < a then arctan (b / a)
          else if a < 0 then (if 0 \<le> b then arctan (b / a) + pi else arctan (b / a) - pi)
          else if 0 < b then pi / 2 else if b < 0 then - (pi / 2) else 0)"
| "js_atan2 NaN _ = NaN"
| "js_atan2 _ NaN = NaN"
| "js_atan2 PInf (Fin a) = Fin (pi / 2)"
| "js_atan2 NInf (Fin a) = Fin (- (pi / 2))"
| "js_atan2 (Fin b) PInf = Fin 0"
| "js_atan2 (Fin b) NInf = Fin (if 0 \<le> b then pi else - pi)"
| "js_atan2 PInf PInf = Fin (pi / 4)"
| "js_atan2 NInf PInf = Fin (- (pi / 4))"
| "js_atan2 PInf NInf = Fin (3 * pi / 4)"
| "js_atan2 NInf NInf = Fin (- (3 * pi / 4))"

section \<open>Converting text to a number\<close>

text \<open>
  \<open>Number(s)\<close> on a string, and the implicit conversion of a string operand of \<open>/\<close>:
  surrounding white space is dropped, the empty text is \<open>0\<close>, a signed decimal literal
  (with optional fraction and exponent), \<open>Infinity\<close> and an unsigned binary, octal or
  hexadecimal integer literal give their value, and every other text gives \<open>NaN\<close>.
  Only the white space characters of ASCII are modelled.
\<close>

definition isWhiteSpace :: "char \<Rightarrow> bool" where
  "isWhiteSpace c \<longleftrightarrow> c \<in> set [CHR 0x09, CHR 0x0A, CHR 0x0B, CHR 0x0C, CHR 0x0D, CHR 0x20]"

definition trim :: "string \<Rightarrow> string" where
  "trim s = rev (dropWhile isWhiteSpace (rev (dropWhile isWhiteSpace s)))"

definition isDigit :: "char \<Rightarrow> bool" where
  "isDigit c \<longleftrightarrow> c \<in> set ''0123456789''"

definition isHexDigit :: "char \<Rightarrow> bool" where
  "isHexDigit c \<longleftrightarrow> c \<in> set ''0123456789abcdefABCDEF''"

definition digitValue :: "char \<Rightarrow> nat" where
  "digitValue c =
     (if isDigit c then of_char c - 48
      else if c \<in> set ''abcdef'' then of_char c - 87
      else of_char c - 55)"

definition digitsValue :: "nat \<Rightarrow> string \<Rightarrow> nat" where
  "digitsValue base s = foldl (\<lambda>a c. base * a + digitValue c) 0 s"

definition parseDigits :: "string \<Rightarrow> nat option" where
  "parseDigits s =
     (if s \<noteq> [] \<and> list_all isDigit s then Some (digitsValue 10 s) else None)"

definition parseSignedInteger :: "string \<Rightarrow> int option" where
  "parseSignedInteger s =
     (case s of
        [] \<Rightarrow> None
      | c # r \<Rightarrow>
          if c = CHR ''+'' then map_option int (parseDigits r)
          else if c = CHR ''-'' then map_option (\<lambda>n. - int n) (parseDigits r)
          else map_option int (parseDigits s))"

text \<open>The digits before the exponent: \<open>12\<close>, \<open>12.\<close>, \<open>12.5\<close> or \<open>.5\<close>.\<close>

definition parseMantissa :: "string \<Rightarrow> real option" where
  "parseMantissa m =
     (let ip = takeWhile isDigit m; r = dropWhile isDigit m
      in case r of
           [] \<Rightarrow> map_option real (parseDigits ip)
         | c # fp \<Rightarrow>
             if c = CHR ''.'' \<and> list_all isDigit fp \<and> (ip \<noteq> [] \<or> fp \<noteq> [])
             then Some (real (digitsValue 10 ip) + real (digitsValue 10 fp) / 10 ^ length fp)
             else None)"

definition isExponentIndicator :: "char \<Rightarrow> bool" where
  "isExponentIndicator c \<longleftrightarrow> c = CHR ''e'' \<or> c = CHR ''E''"

definition parseUnsignedDecimal :: "string \<Rightarrow> jsnum option" where
  "parseUnsignedDecimal s =
     (if s = ''Infinity'' then Some PInf
      else
        let m = takeWhile (\<lambda>c. \<not> isExponentIndicator c) s;
            r = dropWhile (\<lambda>c. \<not> isExponentIndicator c) s
        in case r of
             [] \<Rightarrow> map_option Fin (parseMantissa m)
           | _ # e \<Rightarrow>
               (case (parseMantissa m, parseSignedInteger e) of
                  (Some v, Some k) \<Rightarrow>
                    Some (Fin (if 0 \<le> k then v * 10 ^ nat k else v / 10 ^ nat (- k)))
                | _ \<Rightarrow> None))"

definition parseDecimal :: "string \<Rightarrow> jsnum option" where
  "parseDecimal s =
     (case s of
        [] \<Rightarrow> None
      | c # r \<Rightarrow>
          if c = CHR ''+'' then parseUnsignedDecimal r
          else if c = CHR ''-'' then map_option js_neg (parseUnsignedDecimal r)
          else parseUnsignedDecimal s)"

definition parseRadix :: "nat \<Rightarrow> string \<Rightarrow> nat option" where
  "parseRadix base ds =
     (if ds \<noteq> [] \<and> list_all (\<lambda>c. isHexDigit c \<and> digitValue c < base) ds
      then Some (digitsValue base ds) else None)"

definition parseNonDecimal :: "string \<Rightarrow> nat option" where
  "parseNonDecimal s =
     (case s of
        z # p # ds \<Rightarrow>
          if z \<noteq> CHR ''0'' then None
          else if p = CHR ''x'' \<or> p = CHR ''X'' then parseRadix 16 ds
          else if p = CHR ''o'' \<or> p = CHR ''O'' then parseRadix 8 ds
          else if p = CHR ''b'' \<or> p = CHR ''B'' then parseRadix 2 ds
          else None
      | _ \<Rightarrow> None)"

definition Number_js :: "string \<Rightarrow> jsnum" where
  "Number_js s =
     (let t = trim s
      in if t = [] then Fin 0
         else case parseDecimal t of
                Some v \<Rightarrow> v
              | None \<Rightarrow>
                  (case parseNonDecimal t of Some n \<Rightarrow> Fin (real n) | None \<Rightarrow> NaN))"

text \<open>\<open>s.split(c)\<close> for a separator of one character; \<open>acc\<close> is the piece being read.\<close>

fun splitAcc :: "char \<Rightarrow> string \<Rightarrow> string \<Rightarrow> string list" where
  "splitAcc c acc [] = [rev acc]"
| "splitAcc c acc (d # s) =
     (if d = c then rev acc # splitAcc c [] s else splitAcc c (d # acc) s)"

definition splitOn :: "char \<Rightarrow> string \<Rightarrow> string list" where
  "splitOn c s = splitAcc c [] s"

section \<open>Vectors\<close>

text \<open>
  The operations of the vector class of the graphics library that the program calls.
  \<open>normalize\<close> divides by the length, or by \<open>1\<close> when the length is zero or \<open>NaN\<close>, and
  \<open>divideScalar\<close> multiplies by the reciprocal.
\<close>

datatype Vector3 = Vector3 (vx: jsnum) (vy: jsnum) (vz: jsnum)

definition multiplyScalar :: "Vector3 \<Rightarrow> jsnum \<Rightarrow> Vector3" where
  "multiplyScalar v s = Vector3 (js_mul (vx v) s) (js_mul (vy v) s) (js_mul (vz v) s)"

definition divideScalar :: "Vector3 \<Rightarrow> jsnum \<Rightarrow> Vector3" where
  "divideScalar v s = multiplyScalar v (js_div (Fin 1) s)"

definition vlength :: "Vector3 \<Rightarrow> jsnum" where
  "vlength v =
     js_sqrt (js_add (js_add (js_mul (vx v) (vx v)) (js_mul (vy v) (vy v)))
                (js_mul (vz v) (vz v)))"

definition normalize :: "Vector3 \<Rightarrow> Vector3" where
  "normalize v = divideScalar v (js_or (vlength v) (Fin 1))"

definition lerpVectors :: "Vector3 \<Rightarrow> Vector3 \<Rightarrow> jsnum \<Rightarrow> Vector3" where
  "lerpVectors v1 v2 alpha =
     Vector3 (js_add (vx v1) (js_mul (js_sub (vx v2) (vx v1)) alpha))
             (js_add (vy v1) (js_mul (js_sub (vy v2) (vy v1)) alpha))
             (js_add (vz v1) (js_mul (js_sub (vz v2) (vz v1)) alpha))"

definition degToRad :: "real \<Rightarrow> real" where
  "degToRad d = d * (pi / 180)"

definition setFromSphericalCoords :: "real \<Rightarrow> real \<Rightarrow> real \<Rightarrow> Vector3" where
  "setFromSphericalCoords radius phi theta =
     (let sinPhiRadius = sin phi * radius
      in Vector3 (Fin (sinPhiRadius * sin theta)) (Fin (cos phi * radius))
           (Fin (sinPhiRadius * cos theta)))"

section \<open>Flights\<close>

text \<open>
  A value of a dataset field. The loader converts numeric text to numbers and
  \<open>true\<close>/\<open>false\<close> to booleans, so a departure time may be any of these.
\<close>

datatype jsval = JUndefined | JNull | JBool bool | JNum jsnum | JStr string

fun truthy :: "jsval \<Rightarrow> bool" where
  "truthy JUndefined = False"
| "truthy JNull = False"
| "truthy (JBool b) = b"
| "truthy (JNum n) = (n \<noteq> Fin 0 \<and> n \<noteq> NaN)"
| "truthy (JStr s) = (s \<noteq> [])"

text \<open>A row of the dataset. The coordinates are finite numbers, in degrees.\<close>

record FlightData =
  origin_lat :: real
  origin_lon :: real
  destination_lat :: real
  destination_lon :: real
  departure_time :: jsval

definition FLIGHT_SPEED :: real where
  "FLIGHT_SPEED = 0.00015"

definition latLongToVector3 :: "real \<Rightarrow> real \<Rightarrow> real \<Rightarrow> Vector3" where
  "latLongToVector3 lat lon radius =
     (let phi = degToRad (90 - lat); theta = degToRad (lon + 90)
      in setFromSphericalCoords radius phi theta)"

text \<open>
  \<open>calculateCurvePoints\<close>: the loop \<open>for (i = 0; i <= segments; i++)\<close> pushes one point
  for each \<open>i\<close>. The progress \<open>i / segments\<close> is a JavaScript division.
\<close>

definition curvePoint :: "Vector3 \<Rightarrow> Vector3 \<Rightarrow> nat \<Rightarrow> nat \<Rightarrow> Vector3" where
  "curvePoint start end' segments i =
     (let t = js_div (Fin (real i)) (Fin (real segments))
      in multiplyScalar (normalize (lerpVectors start end' t)) (Fin 1.05))"

definition calculateCurvePoints :: "real \<Rightarrow> real \<Rightarrow> real \<Rightarrow> real \<Rightarrow> nat \<Rightarrow> Vector3 list" where
  "calculateCurvePoints originLat originLon destLat destLon segments =
     (let start = latLongToVector3 originLat originLon 1.05;
          end' = latLongToVector3 destLat destLon 1.05
      in map (curvePoint start end' segments) [0 ..< Suc segments])"

text \<open>
  \<open>parseTime\<close>: a value that is falsy or not a string gives \<open>0\<close>. A string is trimmed and
  split at the colons, each piece is converted by \<open>Number\<close>, and the first two pieces are
  the hours and the minutes; a missing second piece is \<open>undefined\<close>, which is \<open>NaN\<close> in
  the sum.
\<close>

fun parseTime :: "jsval \<Rightarrow> jsnum" where
  "parseTime (JStr timeString) =
     (if timeString = [] then Fin 0
      else
        (case map Number_js (splitOn CHR '':'' (trim timeString)) of
           [] \<Rightarrow> NaN
         | [hours] \<Rightarrow> js_mul (js_add (js_mul hours (Fin 60)) NaN) (Fin 60)
         | hours # minutes # _ \<Rightarrow> js_mul (js_add (js_mul hours (Fin 60)) minutes) (Fin 60)))"
| "parseTime _ = Fin 0"

definition calculateDuration :: "FlightData \<Rightarrow> jsnum" where
  "calculateDuration d =
     (let dLat = degToRad (destination_lat d - origin_lat d);
          dLon = degToRad (destination_lon d - origin_lon d);
          a = (sin (dLat / 2))\<^sup>2 +
              cos (degToRad (origin_lat d)) * cos (degToRad (destination_lat d)) *
              (sin (dLon / 2))\<^sup>2;
          distance = js_mul (Fin 2) (js_atan2 (js_sqrt (Fin a)) (js_sqrt (Fin (1 - a))))
      in js_div distance (Fin FLIGHT_SPEED))"

datatype error = RangeError

text \<open>
  \<open>createDynamicPath\<close> allocates the position array of the revealed path, six numbers
  for each segment, all zero. A negative length is refused by the array constructor.
\<close>

definition createDynamicPath :: "Vector3 list \<Rightarrow> error + jsnum list" where
  "createDynamicPath curvePoints =
     (if length curvePoints = 0 then Inl RangeError
      else Inr (replicate ((length curvePoints - 1) * 6) (Fin 0)))"

text \<open>
  A flight object. \<open>positions\<close> is the position array of \<open>dynamicPath\<close>.
  \<open>dynamicSegmentIndex\<close> starts at \<open>0\<close> and is only ever assigned the floor of a number
  greater than itself, so it is a natural number. \<open>departed\<close> and \<open>arrived\<close> are not
  set by the constructor: they are read as \<open>undefined\<close>, which is false, until an
  update sets them.
\<close>

record Flight =
  data :: FlightData
  startTime :: jsnum
  duration :: jsnum
  curvePoints :: "Vector3 list"
  positions :: "jsnum list"
  dynamicPathAdded :: bool
  dynamicSegmentIndex :: nat
  departed :: bool
  arrived :: bool

definition newFlight :: "FlightData \<Rightarrow> error + Flight" where
  "newFlight d =
     (let pts = calculateCurvePoints (origin_lat d) (origin_lon d)
                  (destination_lat d) (destination_lon d) 50
      in case createDynamicPath pts of
           Inl e \<Rightarrow> Inl e
         | Inr ps \<Rightarrow>
             Inr \<lparr> data = d, startTime = parseTime (departure_time d),
                   duration = calculateDuration d, curvePoints = pts, positions = ps,
                   dynamicPathAdded = False, dynamicSegmentIndex = 0,
                   departed = False, arrived = False \<rparr>)"

section \<open>Revealing the path\<close>

text \<open>
  A store into the position array. The array is a typed array of fixed length: a store
  past its end is ignored. Beside the array, the state keeps the list of the offsets
  stored to, in order, so that the stores of an update can be inspected.
\<close>

type_synonym f32state = "jsnum list \<times> nat list"

definition f32_store :: "nat \<Rightarrow> jsnum \<Rightarrow> f32state \<Rightarrow> f32state" where
  "f32_store k v s =
     ((if k < length (fst s) then (fst s)[k := v] else fst s), snd s @ [k])"

text \<open>
  The body of the loop of \<open>update\<close> for segment \<open>i\<close>: \<open>end\<close> is \<open>curvePoints[i + 1]\<close>, which
  is \<open>undefined\<close> past the last point, and then nothing is stored. When \<open>end\<close> exists,
  so does \<open>start = curvePoints[i]\<close>.
\<close>

definition drawSegment :: "Vector3 list \<Rightarrow> nat \<Rightarrow> f32state \<Rightarrow> f32state" where
  "drawSegment pts i s =
     (if i + 1 < length pts then
        (let start = pts ! i; end' = pts ! (i + 1); offset = i * 6
         in f32_store (offset + 5) (vz end')
              (f32_store (offset + 4) (vy end')
                (f32_store (offset + 3) (vx end')
                  (f32_store (offset + 2) (vz start)
                    (f32_store (offset + 1) (vy start)
                      (f32_store offset (vx start) s))))))
      else s)"

definition flightProgress :: "jsnum \<Rightarrow> Flight \<Rightarrow> jsnum" where
  "flightProgress currentTime f = js_div (js_sub currentTime (startTime f)) (duration f)"

definition targetSegmentIndex :: "jsnum \<Rightarrow> Flight \<Rightarrow> jsnum" where
  "targetSegmentIndex currentTime f =
     js_floor (js_mul (flightProgress currentTime f) (Fin (real (length (curvePoints f)) - 1)))"

text \<open>
  \<open>Flight.update\<close>, with the offsets it stores to. The loop
  \<open>for (i = dynamicSegmentIndex; i <= targetSegmentIndex; i++)\<close> runs over a finite
  range when the target is finite; when the target is \<open>Infinity\<close> it never ends, and the
  result is \<open>None\<close>.
\<close>

definition markAdded :: "jsnum \<Rightarrow> Flight \<Rightarrow> Flight" where
  "markAdded currentTime f =
     (if js_ge currentTime (startTime f) \<and> \<not> dynamicPathAdded f
      then f\<lparr>dynamicPathAdded := True\<rparr> else f)"

definition updateTraced :: "jsnum \<Rightarrow> Flight \<Rightarrow> (Flight \<times> nat list) option" where
  "updateTraced currentTime f0 =
     (let f = markAdded currentTime f0
      in if dynamicPathAdded f \<and> js_le currentTime (js_add (startTime f) (duration f)) then
           (let target = targetSegmentIndex currentTime f
            in if js_gt target (Fin (real (dynamicSegmentIndex f))) then
                 (case target of
                    Fin n \<Rightarrow>
                      (let s = fold (drawSegment (curvePoints f))
                                 [dynamicSegmentIndex f ..< Suc (nat \<lfloor>n\<rfloor>)] (positions f, [])
                       in Some (f\<lparr>positions := fst s, dynamicSegmentIndex := nat \<lfloor>n\<rfloor>\<rparr>,
                                snd s))
                  | _ \<Rightarrow> None)
               else Some (f, []))
         else Some (f, []))"

definition update :: "jsnum \<Rightarrow> Flight \<Rightarrow> Flight option" where
  "update currentTime f = map_option fst (updateTraced currentTime f)"

text \<open>The flight after each of a sequence of updates, the initial one first.\<close>

fun updates :: "jsnum list \<Rightarrow> Flight \<Rightarrow> Flight list option" where
  "updates [] f = Some [f]"
| "updates (c # cs) f =
     (case update c f of
        None \<Rightarrow> None
      | Some f' \<Rightarrow> map_option (\<lambda>fs. f # fs) (updates cs f'))"

section \<open>Airports and plane instances\<close>

record Airport =
  lat :: real
  lon :: real
  planes :: int

text \<open>
  The matrix of one plane instance: the identity until the instance is first placed,
  then the matrix of an object at a position looking at a second point.
\<close>

datatype Matrix4 = Identity | LookingAt Vector3 Vector3

record World =
  flights :: "Flight list"
  airportStars :: "Airport list"
  instanceMatrix :: "Matrix4 list"
  TIME_ACCELERATION :: jsnum

text \<open>
  The airport of a key. The program compares the texts \<open>lat,lon\<close> of the two numbers;
  two finite numbers have the same text exactly when they are equal.
\<close>

definition hasKey :: "real \<Rightarrow> real \<Rightarrow> Airport \<Rightarrow> bool" where
  "hasKey la lo a \<longleftrightarrow> lat a = la \<and> lon a = lo"

fun updateFirst :: "('a \<Rightarrow> bool) \<Rightarrow> ('a \<Rightarrow> 'a) \<Rightarrow> 'a list \<Rightarrow> 'a list" where
  "updateFirst P g [] = []"
| "updateFirst P g (a # as) = (if P a then g a # as else a # updateFirst P g as)"

text \<open>
  \<open>find\<close> returns the first airport with the key, and its count is changed in place;
  when there is none, nothing is changed.
\<close>

definition addPlanes :: "real \<Rightarrow> real \<Rightarrow> int \<Rightarrow> Airport list \<Rightarrow> Airport list" where
  "addPlanes la lo n stars =
     (case find (hasKey la lo) stars of
        None \<Rightarrow> stars
      | Some _ \<Rightarrow> updateFirst (hasKey la lo) (\<lambda>a. a\<lparr>planes := planes a + n\<rparr>) stars)"

definition planePosition :: "Flight \<Rightarrow> jsnum \<Rightarrow> Vector3" where
  "planePosition flight t =
     (let start = latLongToVector3 (origin_lat (data flight)) (origin_lon (data flight)) 1;
          end' = latLongToVector3 (destination_lat (data flight))
                   (destination_lon (data flight)) 1;
          radiusOffset = 0.05
      in multiplyScalar (normalize (lerpVectors start end' t)) (Fin (1 + radiusOffset)))"

text \<open>
  The body of the \<open>forEach\<close> of \<open>updateInstancedPlanes\<close> for the flight at \<open>index\<close>,
  which is less than the number of flights.
\<close>

definition updatePlane :: "jsnum \<Rightarrow> nat \<Rightarrow> World \<Rightarrow> World" where
  "updatePlane currentTime index w =
     (let flight = flights w ! index;
          t = flightProgress currentTime flight
      in if js_ge t (Fin 0) \<and> js_le t (Fin 1) then
           (let currentPos = planePosition flight t;
                nextPos = planePosition flight (js_min (js_add t (Fin 0.01)) (Fin 1));
                w1 = w\<lparr>instanceMatrix :=
                         (instanceMatrix w)[index := LookingAt currentPos nextPos]\<rparr>
            in if js_lt t (Fin 0.01) \<and> \<not> departed flight then
                 w1\<lparr>airportStars :=
                       addPlanes (origin_lat (data flight)) (origin_lon (data flight)) (- 1)
                         (airportStars w1),
                     flights := (flights w1)[index := flight\<lparr>departed := True\<rparr>]\<rparr>
               else if js_gt t (Fin 0.99) \<and> \<not> arrived flight then
                 w1\<lparr>airportStars :=
                       addPlanes (destination_lat (data flight))
                         (destination_lon (data flight)) 1 (airportStars w1),
                     flights := (flights w1)[index := flight\<lparr>arrived := True\<rparr>]\<rparr>
               else w1)
         else w)"

definition updateInstancedPlanes :: "jsnum \<Rightarrow> World \<Rightarrow> World" where
  "updateInstancedPlanes currentTime w =
     (if flights w = [] then w
      else fold (updatePlane currentTime) [0 ..< length (flights w)] w)"

text \<open>A sequence of calls of \<open>updateInstancedPlanes\<close>, one for each simulated time.\<close>

fun ticks :: "jsnum list \<Rightarrow> World \<Rightarrow> World" where
  "ticks [] w = w"
| "ticks (c # cs) w = ticks cs (updateInstancedPlanes c w)"

section \<open>The simulation clock\<close>

text \<open>
  \<open>animate\<close> computes the simulated time of a frame from \<open>elapsed\<close>, the seconds since
  the clock started, and the acceleration at that moment. The listener of the speed
  slider stores \<open>1440 / value\<close>, where \<open>value\<close> is the text of the slider.
\<close>

definition simulatedTime :: "real \<Rightarrow> World \<Rightarrow> jsnum" where
  "simulatedTime elapsed w = js_mul (Fin elapsed) (TIME_ACCELERATION w)"

definition speedSliderInput :: "string \<Rightarrow> World \<Rightarrow> World" where
  "speedSliderInput v w = w\<lparr>TIME_ACCELERATION := js_div (Fin 1440) (Number_js v)\<rparr>"





section \<open>Loading the dataset\<close>

text \<open>
  \<open>loadFlightData\<close> constructs a flight for each row whose departure time is truthy,
  then creates the plane instances, one identity matrix for each flight, and the
  airports. An exception of the constructor ends the loading.
\<close>

fun constructFlights :: "FlightData list \<Rightarrow> error + Flight list" where
  "constructFlights [] = Inr []"
| "constructFlights (d # ds) =
     (if truthy (departure_time d) then
        (case newFlight d of
           Inl e \<Rightarrow> Inl e
         | Inr f \<Rightarrow>
             (case constructFlights ds of Inl e \<Rightarrow> Inl e | Inr fs \<Rightarrow> Inr (f # fs)))
      else constructFlights ds)"

text \<open>
  \<open>createAirportStars\<close>: the airports are collected in an object keyed by \<open>lat,lon\<close>,
  whose values are read back in the order the keys were added. Each flight adds one
  plane to its origin and makes sure that its destination exists.
\<close>

definition ensureAirport :: "real \<Rightarrow> real \<Rightarrow> Airport list \<Rightarrow> Airport list" where
  "ensureAirport la lo stars =
     (case find (hasKey la lo) stars of
        None \<Rightarrow> stars @ [\<lparr> lat = la, lon = lo, planes = 0 \<rparr>]
      | Some _ \<Rightarrow> stars)"

definition addFlightAirports :: "Flight \<Rightarrow> Airport list \<Rightarrow> Airport list" where
  "addFlightAirports flight stars =
     ensureAirport (destination_lat (data flight)) (destination_lon (data flight))
       (addPlanes (origin_lat (data flight)) (origin_lon (data flight)) 1
         (ensureAirport (origin_lat (data flight)) (origin_lon (data flight)) stars))"

definition createAirportStars :: "Flight list \<Rightarrow> Airport list" where
  "createAirportStars fs = fold addFlightAirports fs []"

definition loadFlightData :: "FlightData list \<Rightarrow> error + World" where
  "loadFlightData rows =
     (case constructFlights rows of
        Inl e \<Rightarrow> Inl e
      | Inr fs \<Rightarrow>
          Inr \<lparr> flights = fs, airportStars = createAirportStars fs,
                instanceMatrix = replicate (length fs) Identity,
                TIME_ACCELERATION = Fin (1440 / 5) \<rparr>)"

text \<open>
  A dataset of one row, used to run the program on a concrete input: a flight from
  \<open>(0, 0)\<close> to the opposite point \<open>(0, 180)\<close> of the equator, leaving at \<open>00:10\<close>.
\<close>

definition exampleRow :: FlightData where
  "exampleRow = \<lparr> origin_lat = 0, origin_lon = 0, destination_lat = 0,
     destination_lon = 180, departure_time = JStr ''00:10'' \<rparr>"

text \<open>A row whose origin and destination are the same point, leaving at \<open>00:00\<close>.\<close>

definition coincidentRow :: FlightData where
  "coincidentRow = \<lparr> origin_lat = 10, origin_lon = 20, destination_lat = 10,
     destination_lon = 20, departure_time = JStr ''00:00'' \<rparr>"

section \<open>Departure and arrival\<close>

text \<open>
  The conditions under which \<open>updateInstancedPlanes\<close> takes the departure branch and
  the arrival branch for a flight, and the number of times each is taken for the flight
  at \<open>index\<close> over a sequence of calls.
\<close>

definition enRoute :: "jsnum \<Rightarrow> Flight \<Rightarrow> bool" where
  "enRoute currentTime f \<longleftrightarrow>
     js_ge (flightProgress currentTime f) (Fin 0) \<and> js_le (flightProgress currentTime f) (Fin 1)"

definition departureFires :: "jsnum \<Rightarrow> Flight \<Rightarrow> bool" where
  "departureFires currentTime f \<longleftrightarrow>
     enRoute currentTime f \<and> js_lt (flightProgress currentTime f) (Fin 0.01) \<and> \<not> departed f"

definition arrivalFires :: "jsnum \<Rightarrow> Flight \<Rightarrow> bool" where
  "arrivalFires currentTime f \<longleftrightarrow>
     enRoute currentTime f \<and> \<not> departureFires currentTime f \<and>
     js_gt (flightProgress currentTime f) (Fin 0.99) \<and> \<not> arrived f"

text \<open>What a call of \<open>updateInstancedPlanes\<close> does to the flags of one flight.\<close>

definition tickFlight :: "jsnum \<Rightarrow> Flight \<Rightarrow> Flight" where
  "tickFlight c f =
     (if departureFires c f then f\<lparr>departed := True\<rparr>
      else if arrivalFires c f then f\<lparr>arrived := True\<rparr> else f)"

fun departureCount :: "nat \<Rightarrow> jsnum list \<Rightarrow> World \<Rightarrow> nat" where
  "departureCount index [] w = 0"
| "departureCount index (c # cs) w =
     (if departureFires c (flights w ! index) then 1 else 0) +
     departureCount index cs (updateInstancedPlanes c w)"

fun arrivalCount :: "nat \<Rightarrow> jsnum list \<Rightarrow> World \<Rightarrow> nat" where
  "arrivalCount index [] w = 0"
| "arrivalCount index (c # cs) w =
     (if arrivalFires c (flights w ! index) then 1 else 0) +
     arrivalCount index cs (updateInstancedPlanes c w)"

text \<open>
  The count that the program finds for the coordinates \<open>(la, lo)\<close>: that of the first
  airport with this key, if there is one.
\<close>

definition planesAt :: "real \<Rightarrow> real \<Rightarrow> Airport list \<Rightarrow> int option" where
  "planesAt la lo stars = map_option planes (find (hasKey la lo) stars)"

text \<open>
  Between two states of the list of flights: the number of flights with origin
  \<open>(la, lo)\<close> whose \<open>departed\<close> went from false to true, and the number of flights with
  destination \<open>(la, lo)\<close> whose \<open>arrived\<close> went from false to true.
\<close>

definition departuresFrom :: "real \<Rightarrow> real \<Rightarrow> Flight list \<Rightarrow> Flight list \<Rightarrow> nat" where
  "departuresFrom la lo before after =
     length (filter (\<lambda>(f, f'). origin_lat (data f) = la \<and> origin_lon (data f) = lo \<and>
                               \<not> departed f \<and> departed f') (zip before after))"

definition arrivalsAt :: "real \<Rightarrow> real \<Rightarrow> Flight list \<Rightarrow> Flight list \<Rightarrow> nat" where
  "arrivalsAt la lo before after =
     length (filter (\<lambda>(f, f'). destination_lat (data f) = la \<and> destination_lon (data f) = lo \<and>
                               \<not> arrived f \<and> arrived f') (zip before after))"

text \<open>The part of one flight in the two numbers, as a change of the count.\<close>

definition flightDelta :: "real \<Rightarrow> real \<Rightarrow> Flight \<Rightarrow> Flight \<Rightarrow> int" where
  "flightDelta la lo f f' =
     (if destination_lat (data f) = la \<and> destination_lon (data f) = lo \<and>
         \<not> arrived f \<and> arrived f' then 1 else 0) -
     (if origin_lat (data f) = la \<and> origin_lon (data f) = lo \<and>
         \<not> departed f \<and> departed f' then 1 else 0)"

section \<open>Picking\<close>

text \<open>
  The \<open>raycast\<close> of the plane instances. For instance \<open>i\<close>, \<open>hit i\<close> is the distance from
  the origin of the ray to the point where the ray meets the bounding sphere placed by
  the matrix of the instance, or \<open>None\<close> when the ray misses it. The loop visits every
  instance and appends the hits whose distance is neither less than \<open>near\<close> nor
  greater than \<open>far\<close>; the program leaves these at \<open>0\<close> and \<open>Infinity\<close>.
\<close>

definition raycastInstance ::
  "(nat \<Rightarrow> real option) \<Rightarrow> jsnum \<Rightarrow> jsnum \<Rightarrow> nat \<Rightarrow> (real \<times> nat) list \<Rightarrow> (real \<times> nat) list"
where
  "raycastInstance hit near far i intersects =
     (case hit i of
        None \<Rightarrow> intersects
      | Some distance \<Rightarrow>
          if js_lt (Fin distance) near \<or> js_gt (Fin distance) far then intersects
          else intersects @ [(distance, i)])"

definition raycast ::
  "(nat \<Rightarrow> real option) \<Rightarrow> jsnum \<Rightarrow> jsnum \<Rightarrow> nat \<Rightarrow> (real \<times> nat) list \<Rightarrow> (real \<times> nat) list"
where
  "raycast hit near far count intersects =
     fold (raycastInstance hit near far) [0 ..< count] intersects"

text \<open>
  \<open>intersectObject\<close> of the library calls \<open>raycast\<close> on an empty list and sorts the hits
  by distance; the sort is stable.
\<close>

definition intersectObject ::
  "(nat \<Rightarrow> real option) \<Rightarrow> jsnum \<Rightarrow> jsnum \<Rightarrow> nat \<Rightarrow> (real \<times> nat) list"
where
  "intersectObject hit near far count = sort_key fst (raycast hit near far count [])"

text \<open>
  The pointer handler: a hit airport marker is reported first; otherwise the first hit
  of the plane instances, when its flight exists; otherwise nothing.
  \<open>airportIntersects\<close> is the sorted list of the airport markers hit.
\<close>

datatype Pick = AirportPick nat | FlightPick nat | NoPick

definition pick ::
  "nat list \<Rightarrow> (nat \<Rightarrow> real option) \<Rightarrow> jsnum \<Rightarrow> jsnum \<Rightarrow> World \<Rightarrow> Pick"
where
  "pick airportIntersects hit near far w =
     (case airportIntersects of
        a # _ \<Rightarrow> AirportPick a
      | [] \<Rightarrow>
          (case intersectObject hit near far (length (instanceMatrix w)) of
             [] \<Rightarrow> NoPick
           | (distance, instanceId) # _ \<Rightarrow>
               if instanceId < length (flights w) then FlightPick instanceId else NoPick))"

text \<open>
  The hits of the first \<open>n\<close> instances that lie within the window from \<open>near\<close> to
  \<open>far\<close>, as pairs of the distance and the instance.
\<close>

definition inWindow :: "(nat \<Rightarrow> real option) \<Rightarrow> jsnum \<Rightarrow> jsnum \<Rightarrow> nat \<Rightarrow> (real \<times> nat) set" where
  "inWindow hit near far n =
     {(d, i). i < n \<and> hit i = Some d \<and> \<not> js_lt (Fin d) near \<and> \<not> js_gt (Fin d) far}"

text \<open>
  The simulated time that a change of the acceleration from \<open>a\<close> to \<open>b\<close> at real time
  \<open>r0\<close> would give at real time \<open>r\<close> if the time elapsed before the change kept its
  scale.
\<close>

definition spec_piecewiseTime :: "real \<Rightarrow> real \<Rightarrow> real \<Rightarrow> real \<Rightarrow> real" where
  "spec_piecewiseTime a b r0 r = a * r0 + b * (r - r0)"

section \<open>Properties of the model\<close>

subsection \<open>Numbers and text\<close>

lemma js_add_NaN [simp]: "js_add a NaN = NaN"
  by (cases a) simp_all

lemma js_mul_NaN [simp]: "js_mul a NaN = NaN"
  by (cases a) simp_all

lemma js_floor_PInf [simp]: "js_floor x = PInf \<longleftrightarrow> x = PInf"
  by (cases x) simp_all

lemmas Number_js_eval =
  Number_js_def trim_def isWhiteSpace_def parseDecimal_def parseUnsignedDecimal_def
  isExponentIndicator_def parseMantissa_def isDigit_def parseDigits_def digitsValue_def
  digitValue_def parseNonDecimal_def parseRadix_def isHexDigit_def parseSignedInteger_def
  splitOn_def

lemma digit_facts:
  assumes "isDigit c"
  shows "\<not> isWhiteSpace c" and "\<not> isExponentIndicator c" and "c \<noteq> CHR '':''"
    and "c \<noteq> CHR ''+''" and "c \<noteq> CHR ''-''"
  using assms by (auto simp add: isDigit_def isWhiteSpace_def isExponentIndicator_def)

lemma trim_id:
  assumes "s \<noteq> []" "\<not> isWhiteSpace (hd s)" "\<not> isWhiteSpace (last s)"
  shows "trim s = s"
proof -
  have "dropWhile isWhiteSpace s = s"
    using assms(1,2) by (cases s) simp_all
  moreover have "dropWhile isWhiteSpace (rev s) = rev s"
    using assms(1,3) by (cases "rev s") (simp_all add: last_rev [symmetric] hd_rev)
  ultimately show ?thesis by (simp add: trim_def)
qed

lemma Number_js_digits:
  assumes "ds \<noteq> []" "list_all isDigit ds"
  shows "Number_js ds = Fin (real (digitsValue 10 ds))"
proof -
  from assms obtain c r where ds: "ds = c # r" by (cases ds) auto
  have all: "\<forall>x \<in> set ds. isDigit x" using assms(2) by (simp add: list_all_iff)
  then have c: "isDigit c" by (simp add: ds)
  have "isDigit (hd ds)" "isDigit (last ds)"
    using all assms(1) by simp_all
  then have t: "trim ds = ds"
    using assms(1) by (intro trim_id) (simp_all add: digit_facts)
  have noexp: "\<forall>x \<in> set ds. \<not> isExponentIndicator x"
    using all by (simp add: digit_facts)
  have tw: "takeWhile (\<lambda>c. \<not> isExponentIndicator c) ds = ds"
    and dw: "dropWhile (\<lambda>c. \<not> isExponentIndicator c) ds = []"
    using noexp by simp_all
  have tw': "takeWhile isDigit ds = ds" and dw': "dropWhile isDigit ds = []"
    using all by simp_all
  have inf: "ds \<noteq> ''Infinity''"
    using assms(2) by (auto simp add: isDigit_def)
  have "parseMantissa ds = Some (real (digitsValue 10 ds))"
    using assms by (simp add: parseMantissa_def tw' dw' parseDigits_def)
  then have "parseUnsignedDecimal ds = Some (Fin (real (digitsValue 10 ds)))"
    using inf by (simp add: parseUnsignedDecimal_def tw dw)
  then have "parseDecimal ds = Some (Fin (real (digitsValue 10 ds)))"
    using digit_facts(4,5) [OF c] by (simp add: parseDecimal_def ds)
  then show ?thesis
    using assms(1) by (simp add: Number_js_def t)
qed

lemma splitAcc_no_separator:
  assumes "c \<notin> set s"
  shows "splitAcc c acc s = [rev acc @ s]"
  using assms by (induction s arbitrary: acc) auto

lemma splitAcc_one_separator:
  assumes "c \<notin> set h"
  shows "splitAcc c acc (h @ c # m) = (rev acc @ h) # splitAcc c [] m"
  using assms by (induction h arbitrary: acc) auto

subsection \<open>The departure time\<close>

lemma parseTime_missing:
  "parseTime JUndefined = Fin 0" "parseTime JNull = Fin 0" "parseTime (JStr []) = Fin 0"
  "parseTime (JNum n) = Fin 0" "parseTime (JBool b) = Fin 0"
  by simp_all

lemma parseTime_example: "parseTime (JStr ''07:45'') = Fin ((7 * 60 + 45) * 60)"
  by (simp add: Number_js_eval)

text \<open>
  A departure time of the form \<open>HH:MM\<close>, two runs of decimal digits around a colon,
  is parsed to the seconds from midnight.
\<close>

lemma parseTime_wellformed:
  assumes "hh \<noteq> []" "list_all isDigit hh" "mm \<noteq> []" "list_all isDigit mm"
  shows "parseTime (JStr (hh @ CHR '':'' # mm)) =
           Fin ((real (digitsValue 10 hh) * 60 + real (digitsValue 10 mm)) * 60)"
proof -
  let ?s = "hh @ CHR '':'' # mm"
  have hall: "\<forall>x \<in> set hh. isDigit x" and mall: "\<forall>x \<in> set mm. isDigit x"
    using assms(2,4) by (simp_all add: list_all_iff)
  have "isDigit (hd hh)" "isDigit (last mm)"
    using hall mall assms(1,3) by simp_all
  then have "\<not> isWhiteSpace (hd ?s)" "\<not> isWhiteSpace (last ?s)"
    using assms(1,3) by (simp_all add: digit_facts)
  then have t: "trim ?s = ?s" by (intro trim_id) simp_all
  have "CHR '':'' \<notin> set hh" "CHR '':'' \<notin> set mm"
    using hall mall digit_facts(3) by blast+
  then have "splitOn CHR '':'' ?s = [hh, mm]"
    by (simp add: splitOn_def splitAcc_one_separator splitAcc_no_separator)
  then show ?thesis
    by (simp add: t Number_js_digits assms)
qed

text \<open>
  C6 fails on the program for a departure time that is a string but not of the form
  \<open>HH:MM\<close>: the result is \<open>NaN\<close>, not \<open>0\<close>. Such a row is truthy, so the loader
  constructs its flight, whose start time is then \<open>NaN\<close>.
\<close>

theorem parseTime_malformed_is_NaN:
  "parseTime (JStr ''abc'') = NaN \<and> parseTime (JStr ''12'') = NaN \<and>
   parseTime (JStr ''12:3x'') = NaN \<and> truthy (JStr ''abc'')"
  by (simp add: Number_js_eval)

subsection \<open>The path of a flight\<close>

lemma calculateCurvePoints_length [simp]:
  "length (calculateCurvePoints originLat originLon destLat destLon segments) = Suc segments"
  by (simp add: calculateCurvePoints_def Let_def)

lemma calculateCurvePoints_nonempty [simp]:
  "calculateCurvePoints originLat originLon destLat destLon segments \<noteq> []"
  using calculateCurvePoints_length [of originLat originLon destLat destLon segments]
  by (metis length_0_conv nat.distinct(1))

lemma curvePoint_no_segments: "curvePoint start end' 0 i = Vector3 NaN NaN NaN" if "i = 0"
  using that
  by (simp add: curvePoint_def lerpVectors_def normalize_def divideScalar_def
      multiplyScalar_def vlength_def js_or_def)

lemma latLong_components:
  "latLongToVector3 la lo r =
     Vector3 (Fin (sin (degToRad (90 - la)) * r * sin (degToRad (lo + 90))))
             (Fin (cos (degToRad (90 - la)) * r))
             (Fin (sin (degToRad (90 - la)) * r * cos (degToRad (lo + 90))))"
  by (simp add: latLongToVector3_def setFromSphericalCoords_def Let_def)

lemma sphere_square:
  fixes p q r :: real
  shows "(sin p * r * sin q) * (sin p * r * sin q) + (cos p * r) * (cos p * r) +
         (sin p * r * cos q) * (sin p * r * cos q) = r\<^sup>2"
proof -
  have "(sin p * r * sin q) * (sin p * r * sin q) + (cos p * r) * (cos p * r) +
        (sin p * r * cos q) * (sin p * r * cos q) =
        r * r * (sin p * sin p * (cos q * cos q + sin q * sin q) + cos p * cos p)"
    by (simp only: algebra_simps)
  also have "\<dots> = r * r * (cos p * cos p + sin p * sin p)"
    by (simp only: sin_cos_squared_add3 mult_1_right add.commute)
  also have "\<dots> = r\<^sup>2"
    by (simp only: sin_cos_squared_add3 mult_1_right power2_eq_square)
  finally show ?thesis .
qed

lemma latLong_vlength:
  assumes "0 \<le> r"
  shows "vlength (latLongToVector3 la lo r) = Fin r"
  using assms by (simp add: latLong_components vlength_def sphere_square)

lemma rescale_finite:
  assumes "vlength (Vector3 (Fin a) (Fin b) (Fin c)) = Fin l" "0 < l"
  shows "multiplyScalar (normalize (Vector3 (Fin a) (Fin b) (Fin c))) (Fin l) =
           Vector3 (Fin a) (Fin b) (Fin c)"
  using assms
  by (simp add: normalize_def divideScalar_def multiplyScalar_def js_or_def)

lemma lerp_finite_0:
  "lerpVectors (Vector3 (Fin a) (Fin b) (Fin c)) (Vector3 (Fin a') (Fin b') (Fin c')) (Fin 0) =
     Vector3 (Fin a) (Fin b) (Fin c)"
  by (simp add: lerpVectors_def js_sub_def)

lemma lerp_finite_1:
  "lerpVectors (Vector3 (Fin a) (Fin b) (Fin c)) (Vector3 (Fin a') (Fin b') (Fin c')) (Fin 1) =
     Vector3 (Fin a') (Fin b') (Fin c')"
  by (simp add: lerpVectors_def js_sub_def)

lemma curvePoint_first:
  assumes "0 < segments"
  shows "curvePoint (latLongToVector3 la lo 1.05) (latLongToVector3 la' lo' 1.05) segments 0 =
           latLongToVector3 la lo 1.05"
proof -
  have l: "vlength (latLongToVector3 la lo 1.05) = Fin 1.05"
    by (rule latLong_vlength) simp
  have t: "js_div (Fin (real 0)) (Fin (real segments)) = Fin 0"
    using assms by simp
  show ?thesis
    unfolding curvePoint_def Let_def t
    using l unfolding latLong_components lerp_finite_0
    by (rule rescale_finite) simp
qed

lemma curvePoint_last:
  assumes "0 < segments"
  shows "curvePoint (latLongToVector3 la lo 1.05) (latLongToVector3 la' lo' 1.05) segments
           segments = latLongToVector3 la' lo' 1.05"
proof -
  have l: "vlength (latLongToVector3 la' lo' 1.05) = Fin 1.05"
    by (rule latLong_vlength) simp
  have t: "js_div (Fin (real segments)) (Fin (real segments)) = Fin 1"
    using assms by simp
  show ?thesis
    unfolding curvePoint_def Let_def t
    using l unfolding latLong_components lerp_finite_1
    by (rule rescale_finite) simp
qed

text \<open>
  With no segment the progress of the only point is \<open>0 / 0\<close>, which is \<open>NaN\<close>, and so
  are its coordinates. The program always asks for \<open>50\<close> segments.
\<close>

lemma calculateCurvePoints_no_segments:
  "calculateCurvePoints 0 0 0 180 0 = [Vector3 NaN NaN NaN] \<and>
   hd (calculateCurvePoints 0 0 0 180 0) \<noteq> latLongToVector3 0 0 1.05"
  by (simp add: calculateCurvePoints_def curvePoint_no_segments latLong_components)

text \<open>
  In the exact arithmetic of this model, the path generated with at least one segment
  starts at the projection of the origin and ends at the projection of the
  destination, both at the distance \<open>1.05\<close> from the centre of the sphere. The program
  computes in 64-bit floating point, where normalising a vector and scaling it back
  returns the projection only up to rounding: the equalities below are facts of the
  exact arithmetic, not of the numbers the program stores. The number of points,
  \<open>segments + 1\<close>, does not depend on the arithmetic.
\<close>

lemma curve_points_endpoints_exact:
  assumes "0 < segments"
  shows "length (calculateCurvePoints olat olon dlat dlon segments) = segments + 1 \<and>
         hd (calculateCurvePoints olat olon dlat dlon segments) =
           latLongToVector3 olat olon 1.05 \<and>
         last (calculateCurvePoints olat olon dlat dlon segments) =
           latLongToVector3 dlat dlon 1.05 \<and>
         vlength (hd (calculateCurvePoints olat olon dlat dlon segments)) = Fin 1.05 \<and>
         vlength (last (calculateCurvePoints olat olon dlat dlon segments)) = Fin 1.05"
proof -
  let ?start = "latLongToVector3 olat olon 1.05"
  let ?end = "latLongToVector3 dlat dlon 1.05"
  have pts: "calculateCurvePoints olat olon dlat dlon segments =
      map (curvePoint ?start ?end segments) [0 ..< Suc segments]"
    by (simp add: calculateCurvePoints_def Let_def)
  have "hd (map (curvePoint ?start ?end segments) [0 ..< Suc segments]) =
      curvePoint ?start ?end segments 0"
    by (simp add: hd_map del: upt_Suc)
  then have first: "hd (calculateCurvePoints olat olon dlat dlon segments) = ?start"
    using curvePoint_first [OF assms] by (simp only: pts)
  have "last (map (curvePoint ?start ?end segments) [0 ..< Suc segments]) =
      curvePoint ?start ?end segments segments"
    by (simp add: last_map)
  then have final: "last (calculateCurvePoints olat olon dlat dlon segments) = ?end"
    using curvePoint_last [OF assms] by (simp only: pts)
  have "vlength ?start = Fin 1.05" "vlength ?end = Fin 1.05"
    by (rule latLong_vlength, simp)+
  with first final show ?thesis by simp
qed

subsection \<open>Constructed flights and loaded worlds\<close>

lemma calculateDuration_not_negative: "\<not> js_lt (calculateDuration d) (Fin 0)"
proof -
  define a where "a = (sin (degToRad (destination_lat d - origin_lat d) / 2))\<^sup>2 +
      cos (degToRad (origin_lat d)) * cos (degToRad (destination_lat d)) *
      (sin (degToRad (destination_lon d - origin_lon d) / 2))\<^sup>2"
  have dur: "calculateDuration d =
      js_div (js_mul (Fin 2) (js_atan2 (js_sqrt (Fin a)) (js_sqrt (Fin (1 - a)))))
        (Fin FLIGHT_SPEED)"
    by (simp add: calculateDuration_def Let_def a_def)
  show ?thesis
  proof (cases "a < 0 \<or> 1 < a")
    case True
    then show ?thesis by (auto simp add: dur)
  next
    case False
    then have a: "0 \<le> a" "a \<le> 1" by auto
    have "0 \<le> sqrt a / sqrt (1 - a)"
      using a by simp
    then have "\<not> sqrt a / sqrt (1 - a) < 0" by linarith
    then show ?thesis
      using a by (simp add: dur FLIGHT_SPEED_def)
  qed
qed

lemma newFlight_eq:
  "newFlight d =
     Inr \<lparr> data = d, startTime = parseTime (departure_time d),
           duration = calculateDuration d,
           curvePoints = calculateCurvePoints (origin_lat d) (origin_lon d)
             (destination_lat d) (destination_lon d) 50,
           positions = replicate 300 (Fin 0),
           dynamicPathAdded = False, dynamicSegmentIndex = 0,
           departed = False, arrived = False \<rparr>"
  by (simp add: newFlight_def createDynamicPath_def Let_def)

lemma newFlight_wellformed:
  assumes "newFlight d = Inr f"
  shows "\<not> js_lt (duration f) (Fin 0)" and "curvePoints f \<noteq> []"
    and "length (positions f) = (length (curvePoints f) - 1) * 6"
proof -
  from assms have f: "duration f = calculateDuration d"
      "curvePoints f = calculateCurvePoints (origin_lat d) (origin_lon d)
         (destination_lat d) (destination_lon d) 50"
      "positions f = replicate 300 (Fin 0)"
    by (auto simp add: newFlight_eq)
  show "\<not> js_lt (duration f) (Fin 0)"
    by (simp add: f(1) calculateDuration_not_negative)
  have len: "length (curvePoints f) = 51" by (simp add: f(2))
  then show "curvePoints f \<noteq> []" by auto
  show "length (positions f) = (length (curvePoints f) - 1) * 6"
    by (simp add: len f(3))
qed

lemma antipodal_duration:
  "calculateDuration \<lparr> origin_lat = 0, origin_lon = 0, destination_lat = 0,
      destination_lon = 180, departure_time = t \<rparr> = Fin (pi / FLIGHT_SPEED)"
  by (simp add: calculateDuration_def degToRad_def FLIGHT_SPEED_def)

lemma coincident_duration:
  assumes "origin_lat d = destination_lat d" "origin_lon d = destination_lon d"
  shows "calculateDuration d = Fin 0"
  using assms by (simp add: calculateDuration_def degToRad_def FLIGHT_SPEED_def)

lemma constructFlights_built:
  assumes "constructFlights rows = Inr fs" "f \<in> set fs"
  shows "newFlight (data f) = Inr f"
  using assms
proof (induction rows arbitrary: fs)
  case Nil
  then show ?case by simp
next
  case (Cons d ds)
  show ?case
  proof (cases "truthy (departure_time d)")
    case False
    with Cons show ?thesis by simp
  next
    case True
    obtain g where g: "newFlight d = Inr g" by (simp add: newFlight_eq)
    then have dg: "data g = d" by (auto simp add: newFlight_eq)
    from Cons.prems(1) True g obtain gs where gs: "constructFlights ds = Inr gs" "fs = g # gs"
      by (auto split: sum.splits)
    show ?thesis
    proof (cases "f = g")
      case True
      with g dg show ?thesis by simp
    next
      case False
      with Cons.prems(2) gs(2) have "f \<in> set gs" by simp
      with Cons.IH [OF gs(1)] show ?thesis .
    qed
  qed
qed

lemma constructFlights_ok:
  "\<exists>fs. constructFlights rows = Inr fs \<and>
         length fs = length (filter (\<lambda>d. truthy (departure_time d)) rows)"
proof (induction rows)
  case Nil
  show ?case by simp
next
  case (Cons d ds)
  then obtain fs where "constructFlights ds = Inr fs"
      "length fs = length (filter (\<lambda>d. truthy (departure_time d)) ds)"
    by blast
  then show ?case by (simp add: newFlight_eq)
qed

lemma loadFlightData_built:
  assumes "loadFlightData rows = Inr w" "index < length (flights w)"
  shows "newFlight (data (flights w ! index)) = Inr (flights w ! index)"
proof -
  from assms(1) obtain fs where fs: "constructFlights rows = Inr fs" "flights w = fs"
    by (auto simp add: loadFlightData_def split: sum.splits)
  with assms(2) have "flights w ! index \<in> set fs" by simp
  with fs(1) show ?thesis by (rule constructFlights_built)
qed

lemma loadFlightData_ok:
  "\<exists>w. loadFlightData rows = Inr w \<and>
        length (flights w) = length (filter (\<lambda>d. truthy (departure_time d)) rows) \<and>
        instanceMatrix w = replicate (length (flights w)) Identity"
proof -
  obtain fs where "constructFlights rows = Inr fs"
      "length fs = length (filter (\<lambda>d. truthy (departure_time d)) rows)"
    using constructFlights_ok by blast
  then show ?thesis by (simp add: loadFlightData_def)
qed

lemma exampleRow_startTime: "parseTime (departure_time exampleRow) = Fin 600"
  by (simp add: exampleRow_def Number_js_eval)

lemma exampleRow_duration: "calculateDuration exampleRow = Fin (pi / FLIGHT_SPEED)"
  by (simp add: exampleRow_def antipodal_duration)

lemma exampleRow_load:
  "\<exists>f. loadFlightData [exampleRow] =
       Inr \<lparr> flights = [f],
             airportStars = [\<lparr> lat = 0, lon = 0, planes = 1 \<rparr>,
                             \<lparr> lat = 0, lon = 180, planes = 0 \<rparr>],
             instanceMatrix = [Identity], TIME_ACCELERATION = Fin 288 \<rparr> \<and>
       data f = exampleRow \<and> startTime f = Fin 600 \<and>
       duration f = Fin (pi / FLIGHT_SPEED) \<and> \<not> departed f \<and> \<not> arrived f"
  by (simp add: loadFlightData_def newFlight_eq exampleRow_startTime exampleRow_duration
      createAirportStars_def addFlightAirports_def ensureAirport_def addPlanes_def
      hasKey_def)
     (simp add: exampleRow_def)

lemma coincidentRow_load:
  "\<exists>f. loadFlightData [coincidentRow] =
       Inr \<lparr> flights = [f], airportStars = [\<lparr> lat = 10, lon = 20, planes = 1 \<rparr>],
             instanceMatrix = [Identity], TIME_ACCELERATION = Fin 288 \<rparr> \<and>
       data f = coincidentRow \<and> startTime f = Fin 0 \<and> duration f = Fin 0 \<and>
       \<not> departed f \<and> \<not> arrived f"
proof -
  have st: "parseTime (departure_time coincidentRow) = Fin 0"
    by (simp add: coincidentRow_def Number_js_eval)
  have du: "calculateDuration coincidentRow = Fin 0"
    by (rule coincident_duration) (simp_all add: coincidentRow_def)
  show ?thesis
    by (simp add: loadFlightData_def newFlight_eq st du createAirportStars_def
        addFlightAirports_def ensureAirport_def addPlanes_def hasKey_def)
       (simp add: coincidentRow_def)
qed

lemma example_progress:
  assumes "startTime f = Fin 600" "duration f = Fin (pi / FLIGHT_SPEED)"
  shows "flightProgress (Fin (600 + k * (pi / FLIGHT_SPEED))) f = Fin k"
  using assms by (simp add: flightProgress_def js_sub_def FLIGHT_SPEED_def)

subsection \<open>Revealing the path: monotonicity and bounds\<close>

lemma markAdded_fields [simp]:
  "startTime (markAdded c f) = startTime f"
  "duration (markAdded c f) = duration f"
  "curvePoints (markAdded c f) = curvePoints f"
  "positions (markAdded c f) = positions f"
  "dynamicSegmentIndex (markAdded c f) = dynamicSegmentIndex f"
  "data (markAdded c f) = data f"
  "departed (markAdded c f) = departed f"
  "arrived (markAdded c f) = arrived f"
  by (simp_all add: markAdded_def)

lemma f32_store_length [simp]: "length (fst (f32_store k v s)) = length (fst s)"
  by (simp add: f32_store_def)

lemma f32_store_log [simp]: "snd (f32_store k v s) = snd s @ [k]"
  by (simp add: f32_store_def)

lemma drawSegment_length [simp]: "length (fst (drawSegment pts i s)) = length (fst s)"
  by (simp add: drawSegment_def Let_def)

lemma drawSegment_log:
  "set (snd (drawSegment pts i s)) \<subseteq> set (snd s) \<union> {k. k < (length pts - 1) * 6}"
  by (auto simp add: drawSegment_def Let_def)

lemma drawSegment_skip:
  assumes "length pts \<le> i + 1"
  shows "drawSegment pts i s = s"
  using assms by (simp add: drawSegment_def)

lemma fold_drawSegment_length [simp]:
  "length (fst (fold (drawSegment pts) is s)) = length (fst s)"
  by (induction "is" arbitrary: s) simp_all

lemma fold_drawSegment_log:
  "set (snd (fold (drawSegment pts) is s)) \<subseteq> set (snd s) \<union> {k. k < (length pts - 1) * 6}"
proof (induction "is" arbitrary: s)
  case Nil
  show ?case by simp
next
  case (Cons i "is")
  have "set (snd (fold (drawSegment pts) is (drawSegment pts i s)))
          \<subseteq> set (snd (drawSegment pts i s)) \<union> {k. k < (length pts - 1) * 6}"
    by (rule Cons.IH)
  with drawSegment_log [of pts i s] show ?case by auto
qed

lemma target_not_PInf:
  assumes "\<not> js_lt d (Fin 0)" "js_le c (js_add s d)" "0 \<le> L"
  shows "js_mul (js_div (js_sub c s) d) (Fin L) \<noteq> PInf"
  using assms
  by (cases c; cases s; cases d) (auto simp add: js_sub_def js_inf_def split: if_splits)

lemma updateTraced_total:
  assumes "\<not> js_lt (duration f) (Fin 0)" "curvePoints f \<noteq> []"
  shows "\<exists>r. updateTraced c f = Some r"
proof -
  let ?f = "markAdded c f"
  let ?t = "targetSegmentIndex c ?f"
  show ?thesis
  proof (cases "dynamicPathAdded ?f \<and> js_le c (js_add (startTime ?f) (duration ?f))")
    case False
    then show ?thesis by (auto simp add: updateTraced_def Let_def)
  next
    case True
    then have "?t \<noteq> PInf"
      using assms target_not_PInf [of "duration f" c "startTime f" "real (length (curvePoints f)) - 1"]
      by (cases "curvePoints f") (simp_all add: targetSegmentIndex_def flightProgress_def)
    then show ?thesis
      by (cases ?t) (auto simp add: updateTraced_def Let_def js_gt_def)
  qed
qed

lemma floor_index_le:
  assumes "real k < of_int \<lfloor>x\<rfloor>"
  shows "k \<le> nat \<lfloor>x\<rfloor>"
proof -
  from assms have "int k < \<lfloor>x\<rfloor>" by linarith
  then show ?thesis by linarith
qed

lemma updateTraced_effect:
  assumes "updateTraced c f = Some (f', offs)"
  shows "dynamicSegmentIndex f \<le> dynamicSegmentIndex f'"
    and "duration f' = duration f"
    and "startTime f' = startTime f"
    and "curvePoints f' = curvePoints f"
    and "length (positions f') = length (positions f)"
    and "set offs \<subseteq> {k. k < (length (curvePoints f) - 1) * 6}"
proof -
  let ?f = "markAdded c f"
  let ?t = "targetSegmentIndex c ?f"
  let ?draw = "\<lambda>n. fold (drawSegment (curvePoints f))
                 [dynamicSegmentIndex f ..< Suc (nat \<lfloor>n\<rfloor>)] (positions f, [])"
  consider (quiet) "f' = ?f" "offs = []"
    | (draw) n where "?t = Fin n" "js_gt ?t (Fin (real (dynamicSegmentIndex f)))"
        "f' = ?f\<lparr>positions := fst (?draw n), dynamicSegmentIndex := nat \<lfloor>n\<rfloor>\<rparr>"
        "offs = snd (?draw n)"
    using assms
    by (cases ?t) (auto simp add: updateTraced_def Let_def split: if_splits)
  then have "dynamicSegmentIndex f \<le> dynamicSegmentIndex f' \<and> duration f' = duration f \<and>
      startTime f' = startTime f \<and> curvePoints f' = curvePoints f \<and>
      length (positions f') = length (positions f) \<and>
      set offs \<subseteq> {k. k < (length (curvePoints f) - 1) * 6}"
  proof cases
    case quiet
    then show ?thesis by simp
  next
    case (draw n)
    have "\<exists>x::real. n = of_int \<lfloor>x\<rfloor>"
      using draw(1)
      by (cases "js_mul (flightProgress c ?f) (Fin (real (length (curvePoints ?f)) - 1))")
         (auto simp add: targetSegmentIndex_def)
    then obtain x :: real where x: "n = of_int \<lfloor>x\<rfloor>" by blast
    have "real (dynamicSegmentIndex f) < n"
      using draw(1,2) by (simp add: js_gt_def)
    then have "dynamicSegmentIndex f \<le> nat \<lfloor>n\<rfloor>"
      using x floor_index_le [of "dynamicSegmentIndex f" x] by simp
    moreover have "set (snd (?draw n)) \<subseteq> {k. k < (length (curvePoints f) - 1) * 6}"
      using fold_drawSegment_log [of "curvePoints f" _ "(positions f, [])"] by simp
    ultimately show ?thesis using draw(3,4) by simp
  qed
  then show "dynamicSegmentIndex f \<le> dynamicSegmentIndex f'"
    and "duration f' = duration f"
    and "startTime f' = startTime f"
    and "curvePoints f' = curvePoints f"
    and "length (positions f') = length (positions f)"
    and "set offs \<subseteq> {k. k < (length (curvePoints f) - 1) * 6}"
    by simp_all
qed

lemma update_Some:
  assumes "\<not> js_lt (duration f) (Fin 0)" "curvePoints f \<noteq> []"
  obtains f' where "update c f = Some f'"
    "dynamicSegmentIndex f \<le> dynamicSegmentIndex f'"
    "duration f' = duration f" "curvePoints f' = curvePoints f"
proof -
  obtain r where r: "updateTraced c f = Some r"
    using updateTraced_total [OF assms] by blast
  obtain f' offs where "r = (f', offs)" by (cases r)
  with r have t: "updateTraced c f = Some (f', offs)" by simp
  then have "update c f = Some f'" by (simp add: update_def)
  with updateTraced_effect [OF t] that show thesis by blast
qed

lemma updates_sorted:
  assumes "\<not> js_lt (duration f) (Fin 0)" "curvePoints f \<noteq> []"
  shows "\<exists>fs. updates cs f = Some fs \<and> length fs = Suc (length cs) \<and> hd fs = f \<and>
           sorted (map dynamicSegmentIndex fs)"
  using assms
proof (induction cs arbitrary: f)
  case Nil
  show ?case by simp
next
  case (Cons c cs)
  obtain f' where f': "update c f = Some f'"
      "dynamicSegmentIndex f \<le> dynamicSegmentIndex f'"
      "duration f' = duration f" "curvePoints f' = curvePoints f"
    using update_Some [OF Cons.prems] by blast
  from Cons.IH [of f'] Cons.prems f'(3,4)
  obtain fs where fs: "updates cs f' = Some fs" "length fs = Suc (length cs)" "hd fs = f'"
      "sorted (map dynamicSegmentIndex fs)"
    by auto
  from fs(2) obtain g gs where g: "fs = g # gs" by (cases fs) auto
  with fs(3) have "g = f'" by simp
  with g fs(4) f'(2) have "sorted (map dynamicSegmentIndex (f # fs))"
    by auto
  with f'(1) fs(1,2) show ?case by simp
qed

lemma update_quiet:
  assumes "\<not> js_gt (targetSegmentIndex c f) (Fin (real (dynamicSegmentIndex f)))"
  shows "update c f = Some (markAdded c f)"
  using assms
  by (simp add: update_def updateTraced_def Let_def targetSegmentIndex_def flightProgress_def)

lemma never_starts_without_start_time:
  assumes "startTime f = NaN"
  shows "\<not> enRoute c f" and "update c f = Some f"
proof -
  have p: "flightProgress c f = NaN"
    using assms by (cases c) (simp_all add: flightProgress_def js_sub_def)
  show "\<not> enRoute c f"
    by (simp add: enRoute_def p js_ge_def)
  have "\<not> js_ge c (startTime f)" "\<not> js_le c (js_add (startTime f) (duration f))"
    using assms by (cases c; simp add: js_ge_def)+
  then show "update c f = Some f"
    by (simp add: update_def updateTraced_def markAdded_def Let_def)
qed

text \<open>
  C2. The number of revealed segments never decreases over a sequence of updates,
  whatever the order of the times, and an update whose target segment is not beyond
  the segments already revealed changes nothing of the revealed path: it leaves the
  position array and the segment index as they are. Every update returns.
\<close>

theorem revealedSegments_never_decrease:
  assumes "\<not> js_lt (duration f) (Fin 0)" and "curvePoints f \<noteq> []"
  shows "(\<exists>fs. updates cs f = Some fs \<and> length fs = Suc (length cs) \<and>
             sorted (map dynamicSegmentIndex fs)) \<and>
         (js_lt (targetSegmentIndex c f) (Fin (real (dynamicSegmentIndex f))) \<longrightarrow>
            (\<exists>f'. update c f = Some f' \<and> positions f' = positions f \<and>
               dynamicSegmentIndex f' = dynamicSegmentIndex f))"
proof
  show "\<exists>fs. updates cs f = Some fs \<and> length fs = Suc (length cs) \<and>
          sorted (map dynamicSegmentIndex fs)"
    using updates_sorted [OF assms, of cs] by blast
next
  show "js_lt (targetSegmentIndex c f) (Fin (real (dynamicSegmentIndex f))) \<longrightarrow>
          (\<exists>f'. update c f = Some f' \<and> positions f' = positions f \<and>
             dynamicSegmentIndex f' = dynamicSegmentIndex f)"
  proof
    assume lt: "js_lt (targetSegmentIndex c f) (Fin (real (dynamicSegmentIndex f)))"
    then have "\<not> js_gt (targetSegmentIndex c f) (Fin (real (dynamicSegmentIndex f)))"
      by (cases "targetSegmentIndex c f") (simp_all add: js_gt_def)
    then have "update c f = Some (markAdded c f)" by (rule update_quiet)
    then show "\<exists>f'. update c f = Some f' \<and> positions f' = positions f \<and>
        dynamicSegmentIndex f' = dynamicSegmentIndex f"
      by simp
  qed
qed

theorem revealedSegments_never_decrease_witness:
  "(case newFlight exampleRow of
      Inl e \<Rightarrow> False
    | Inr f \<Rightarrow>
        \<not> js_lt (duration (f\<lparr>dynamicSegmentIndex := 7\<rparr>)) (Fin 0) \<and>
        curvePoints (f\<lparr>dynamicSegmentIndex := 7\<rparr>) \<noteq> [] \<and>
        (\<exists>fs. updates [Fin 600, Fin 5000, Fin 3000] (f\<lparr>dynamicSegmentIndex := 7\<rparr>) = Some fs \<and>
           length fs = Suc (length [Fin 600, Fin 5000, Fin 3000]) \<and>
           sorted (map dynamicSegmentIndex fs)) \<and>
        js_lt (targetSegmentIndex (Fin 0) (f\<lparr>dynamicSegmentIndex := 7\<rparr>))
          (Fin (real (dynamicSegmentIndex (f\<lparr>dynamicSegmentIndex := 7\<rparr>)))) \<and>
        (\<exists>f'. update (Fin 0) (f\<lparr>dynamicSegmentIndex := 7\<rparr>) = Some f' \<and>
           positions f' = positions (f\<lparr>dynamicSegmentIndex := 7\<rparr>) \<and>
           dynamicSegmentIndex f' = dynamicSegmentIndex (f\<lparr>dynamicSegmentIndex := 7\<rparr>)))"
proof -
  obtain f where f: "newFlight exampleRow = Inr f" by (simp add: newFlight_eq)
  let ?g = "f\<lparr>dynamicSegmentIndex := 7\<rparr>"
  have g1: "\<not> js_lt (duration ?g) (Fin 0)" and g2: "curvePoints ?g \<noteq> []"
    using newFlight_wellformed [OF f] by simp_all
  have st: "startTime f = Fin 600" and du: "duration f = Fin (pi / FLIGHT_SPEED)"
    and len: "length (curvePoints f) = 51"
    using f by (auto simp add: newFlight_eq exampleRow_startTime exampleRow_duration)
  have "(0 - 600) / (pi / FLIGHT_SPEED) * 50 < 0"
    by (simp add: FLIGHT_SPEED_def field_simps)
  then have "real_of_int \<lfloor>(0 - 600) / (pi / FLIGHT_SPEED) * 50\<rfloor> < 7"
    by linarith
  then have lt: "js_lt (targetSegmentIndex (Fin 0) ?g)
      (Fin (real (dynamicSegmentIndex ?g)))"
    by (simp add: targetSegmentIndex_def flightProgress_def st du len js_sub_def
        FLIGHT_SPEED_def)
  show ?thesis
    using g1 g2 lt
      revealedSegments_never_decrease [OF g1 g2, of "[Fin 600, Fin 5000, Fin 3000]" "Fin 0"]
    unfolding f sum.case
    by blast
qed

text \<open>
  C10. For a flight whose position array has the length that \<open>createDynamicPath\<close>
  allocates, six numbers for each segment of the path, every update returns, and every
  offset it stores to lies inside the array. The segment whose end point would lie past
  the last point of the path is skipped, so when the target index is the number of
  segments nothing is stored for it. The array keeps its length.
\<close>

theorem position_stores_within_bounds:
  assumes "length (positions f) = (length (curvePoints f) - 1) * 6"
    and "\<not> js_lt (duration f) (Fin 0)" and "curvePoints f \<noteq> []"
  shows "(\<exists>f' offs. updateTraced c f = Some (f', offs) \<and>
            list_all (\<lambda>k. k < length (positions f)) offs \<and>
            length (positions f') = length (positions f) \<and>
            curvePoints f' = curvePoints f) \<and>
         drawSegment (curvePoints f) (length (curvePoints f) - 1) s = s"
proof
  obtain r where r: "updateTraced c f = Some r"
    using updateTraced_total [OF assms(2,3)] by blast
  obtain f' offs where "r = (f', offs)" by (cases r)
  with r have t: "updateTraced c f = Some (f', offs)" by simp
  have "set offs \<subseteq> {k. k < length (positions f)}"
    using updateTraced_effect(6) [OF t] assms(1) by simp
  then have "list_all (\<lambda>k. k < length (positions f)) offs"
    by (auto simp add: list_all_iff)
  with t updateTraced_effect(4,5) [OF t]
  show "\<exists>f' offs. updateTraced c f = Some (f', offs) \<and>
          list_all (\<lambda>k. k < length (positions f)) offs \<and>
          length (positions f') = length (positions f) \<and>
          curvePoints f' = curvePoints f"
    by blast
next
  have "length (curvePoints f) \<le> (length (curvePoints f) - 1) + 1" by simp
  then show "drawSegment (curvePoints f) (length (curvePoints f) - 1) s = s"
    by (rule drawSegment_skip)
qed

theorem position_stores_within_bounds_witness:
  "(case newFlight exampleRow of
      Inl e \<Rightarrow> False
    | Inr f \<Rightarrow>
        length (positions f) = (length (curvePoints f) - 1) * 6 \<and>
        \<not> js_lt (duration f) (Fin 0) \<and> curvePoints f \<noteq> [] \<and>
        flightProgress (js_add (startTime f) (duration f)) f = Fin 1 \<and>
        targetSegmentIndex (js_add (startTime f) (duration f)) f =
          Fin (real (length (curvePoints f) - 1)) \<and>
        (\<exists>f' offs. updateTraced (js_add (startTime f) (duration f)) f = Some (f', offs) \<and>
            list_all (\<lambda>k. k < length (positions f)) offs \<and>
            length (positions f') = length (positions f) \<and>
            curvePoints f' = curvePoints f) \<and>
        drawSegment (curvePoints f) (length (curvePoints f) - 1) (positions f, []) =
          (positions f, []))"
proof -
  obtain f where f: "newFlight exampleRow = Inr f" by (simp add: newFlight_eq)
  note wf = newFlight_wellformed [OF f]
  have st: "startTime f = Fin 600" and du: "duration f = Fin (pi / FLIGHT_SPEED)"
    and len: "length (curvePoints f) = 51"
    using f by (auto simp add: newFlight_eq exampleRow_startTime exampleRow_duration)
  have p: "flightProgress (js_add (startTime f) (duration f)) f = Fin 1"
    using example_progress [OF st du, of 1] by (simp add: st du)
  have t: "targetSegmentIndex (js_add (startTime f) (duration f)) f =
      Fin (real (length (curvePoints f) - 1))"
    by (simp add: targetSegmentIndex_def p len)
  show ?thesis
    using wf p t
      position_stores_within_bounds [OF wf(3) wf(1) wf(2),
        of "js_add (startTime f) (duration f)" "(positions f, [])"]
    unfolding f sum.case
    by blast
qed

subsection \<open>Departure and arrival transitions\<close>

lemma updatePlane_flights:
  "flights (updatePlane c j w) = (flights w)[j := tickFlight c (flights w ! j)]"
  by (simp add: updatePlane_def tickFlight_def departureFires_def arrivalFires_def
      enRoute_def Let_def)

lemma fold_updatePlane_flights:
  assumes "n \<le> length (flights w)"
  shows "flights (fold (updatePlane c) [0 ..< n] w) =
           map (tickFlight c) (take n (flights w)) @ drop n (flights w)"
  using assms
proof (induction n)
  case 0
  show ?case by simp
next
  case (Suc n)
  let ?w = "fold (updatePlane c) [0 ..< n] w"
  have IH: "flights ?w = map (tickFlight c) (take n (flights w)) @ drop n (flights w)"
    using Suc by simp
  have n: "n < length (flights w)" using Suc.prems by simp
  have nth: "(map (tickFlight c) (take n (flights w)) @ drop n (flights w)) ! n =
      flights w ! n"
    using n by (simp add: nth_append)
  have "flights (fold (updatePlane c) [0 ..< Suc n] w) =
      (flights ?w)[n := tickFlight c (flights ?w ! n)]"
    by (simp add: updatePlane_flights)
  also have "\<dots> = (map (tickFlight c) (take n (flights w)) @ drop n (flights w))
      [n := tickFlight c (flights w ! n)]"
    by (simp add: IH nth)
  also have "\<dots> = map (tickFlight c) (take n (flights w)) @
      (drop n (flights w))[0 := tickFlight c (flights w ! n)]"
    using n by (simp add: list_update_append)
  also have "\<dots> = map (tickFlight c) (take (Suc n) (flights w)) @ drop (Suc n) (flights w)"
    using n by (simp add: take_Suc_conv_app_nth Cons_nth_drop_Suc [symmetric])
  finally show ?case .
qed

lemma updateInstancedPlanes_flights:
  "flights (updateInstancedPlanes c w) = map (tickFlight c) (flights w)"
  by (simp add: updateInstancedPlanes_def fold_updatePlane_flights)

lemma updateInstancedPlanes_nth:
  assumes "i < length (flights w)"
  shows "flights (updateInstancedPlanes c w) ! i = tickFlight c (flights w ! i)"
  using assms by (simp add: updateInstancedPlanes_flights)

lemma updateInstancedPlanes_length [simp]:
  "length (flights (updateInstancedPlanes c w)) = length (flights w)"
  by (simp add: updateInstancedPlanes_flights)

lemma tickFlight_departed:
  "departed (tickFlight c f) \<longleftrightarrow> departed f \<or> departureFires c f"
  by (auto simp add: tickFlight_def departureFires_def)

lemma tickFlight_arrived:
  "arrived (tickFlight c f) \<longleftrightarrow> arrived f \<or> arrivalFires c f"
  by (auto simp add: tickFlight_def arrivalFires_def)

lemma arrivalFires_not_departure:
  assumes "arrivalFires c f"
  shows "\<not> departureFires c f"
  using assms by (simp add: arrivalFires_def)

lemma updatePlane_airportStars:
  "airportStars (updatePlane c i w) =
     (let f = flights w ! i
      in if departureFires c f
         then addPlanes (origin_lat (data f)) (origin_lon (data f)) (- 1) (airportStars w)
         else if arrivalFires c f
         then addPlanes (destination_lat (data f)) (destination_lon (data f)) 1
                (airportStars w)
         else airportStars w)"
  by (simp add: updatePlane_def departureFires_def arrivalFires_def enRoute_def Let_def)

lemma updatePlane_not_enRoute:
  assumes "\<not> enRoute c (flights w ! i)"
  shows "updatePlane c i w = w"
  using assms unfolding updatePlane_def enRoute_def Let_def by (rule if_not_P)

lemma find_None_addPlanes:
  assumes "find (hasKey la lo) stars = None"
  shows "addPlanes la lo n stars = stars"
  using assms by (simp add: addPlanes_def)

lemma departureCount_departed:
  assumes "i < length (flights w)" "departed (flights w ! i)"
  shows "departureCount i cs w = 0"
  using assms
proof (induction cs arbitrary: w)
  case Nil
  show ?case by simp
next
  case (Cons c cs)
  have "\<not> departureFires c (flights w ! i)"
    using Cons.prems(2) by (simp add: departureFires_def)
  moreover have "departureCount i cs (updateInstancedPlanes c w) = 0"
    using Cons.prems
    by (intro Cons.IH) (simp_all add: updateInstancedPlanes_nth tickFlight_departed)
  ultimately show ?case by simp
qed

lemma arrivalCount_arrived:
  assumes "i < length (flights w)" "arrived (flights w ! i)"
  shows "arrivalCount i cs w = 0"
  using assms
proof (induction cs arbitrary: w)
  case Nil
  show ?case by simp
next
  case (Cons c cs)
  have "\<not> arrivalFires c (flights w ! i)"
    using Cons.prems(2) by (simp add: arrivalFires_def)
  moreover have "arrivalCount i cs (updateInstancedPlanes c w) = 0"
    using Cons.prems
    by (intro Cons.IH) (simp_all add: updateInstancedPlanes_nth tickFlight_arrived)
  ultimately show ?case by simp
qed

lemma departureCount_flag:
  assumes "i < length (flights w)"
  shows "departureCount i cs w \<le> 1 \<and>
         (departed (flights (ticks cs w) ! i) \<longleftrightarrow>
            departed (flights w ! i) \<or> departureCount i cs w = 1)"
  using assms
proof (induction cs arbitrary: w)
  case Nil
  show ?case by simp
next
  case (Cons c cs)
  let ?w = "updateInstancedPlanes c w"
  have i: "i < length (flights ?w)" using Cons.prems by simp
  note IH = Cons.IH [OF i]
  have step: "departed (flights ?w ! i) \<longleftrightarrow>
      departed (flights w ! i) \<or> departureFires c (flights w ! i)"
    using Cons.prems by (simp add: updateInstancedPlanes_nth tickFlight_departed)
  show ?case
  proof (cases "departureFires c (flights w ! i)")
    case True
    then have "departed (flights ?w ! i)" using step by simp
    then have "departureCount i cs ?w = 0"
      using i by (simp add: departureCount_departed)
    with True IH step show ?thesis by simp
  next
    case False
    with IH step show ?thesis by simp
  qed
qed

lemma arrivalCount_flag:
  assumes "i < length (flights w)"
  shows "arrivalCount i cs w \<le> 1 \<and>
         (arrived (flights (ticks cs w) ! i) \<longleftrightarrow>
            arrived (flights w ! i) \<or> arrivalCount i cs w = 1)"
  using assms
proof (induction cs arbitrary: w)
  case Nil
  show ?case by simp
next
  case (Cons c cs)
  let ?w = "updateInstancedPlanes c w"
  have i: "i < length (flights ?w)" using Cons.prems by simp
  note IH = Cons.IH [OF i]
  have step: "arrived (flights ?w ! i) \<longleftrightarrow>
      arrived (flights w ! i) \<or> arrivalFires c (flights w ! i)"
    using Cons.prems by (simp add: updateInstancedPlanes_nth tickFlight_arrived)
  show ?case
  proof (cases "arrivalFires c (flights w ! i)")
    case True
    then have "arrived (flights ?w ! i)" using step by simp
    then have "arrivalCount i cs ?w = 0"
      using i by (simp add: arrivalCount_arrived)
    with True IH step show ?thesis by simp
  next
    case False
    with IH step show ?thesis by simp
  qed
qed

lemma quiet_counts:
  assumes "i < length (flights w)"
    and "\<forall>c \<in> set cs. \<not> departureFires c (flights w ! i) \<and> \<not> arrivalFires c (flights w ! i)"
  shows "departureCount i cs w = 0 \<and> arrivalCount i cs w = 0"
  using assms
proof (induction cs arbitrary: w)
  case Nil
  show ?case by simp
next
  case (Cons c cs)
  have "flights (updateInstancedPlanes c w) ! i = flights w ! i"
    using Cons.prems by (simp add: updateInstancedPlanes_nth tickFlight_def)
  with Cons.IH [of "updateInstancedPlanes c w"] Cons.prems show ?case by simp
qed

lemma example_not_fired:
  assumes "startTime f = Fin 600" "duration f = Fin (pi / FLIGHT_SPEED)"
  shows "\<not> enRoute (Fin 0) f"
    and "\<not> departureFires (Fin (600 + 0.5 * (pi / FLIGHT_SPEED))) f"
    and "\<not> arrivalFires (Fin (600 + 0.5 * (pi / FLIGHT_SPEED))) f"
    and "\<not> enRoute (Fin (600 + 1.5 * (pi / FLIGHT_SPEED))) f"
proof -
  define x where "x = (0 - 600) / (pi / FLIGHT_SPEED)"
  have "x < 0"
    by (simp add: x_def FLIGHT_SPEED_def field_simps)
  moreover have "flightProgress (Fin 0) f = Fin x"
    using assms by (simp add: flightProgress_def js_sub_def x_def FLIGHT_SPEED_def)
  ultimately show "\<not> enRoute (Fin 0) f"
    by (simp add: enRoute_def js_ge_def)
  have half: "flightProgress (Fin (600 + 0.5 * (pi / FLIGHT_SPEED))) f = Fin 0.5"
    by (rule example_progress [OF assms])
  show "\<not> departureFires (Fin (600 + 0.5 * (pi / FLIGHT_SPEED))) f"
    unfolding departureFires_def half by simp
  show "\<not> arrivalFires (Fin (600 + 0.5 * (pi / FLIGHT_SPEED))) f"
    unfolding arrivalFires_def half by (simp add: js_gt_def)
  have past: "flightProgress (Fin (600 + 1.5 * (pi / FLIGHT_SPEED))) f = Fin 1.5"
    by (rule example_progress [OF assms])
  show "\<not> enRoute (Fin (600 + 1.5 * (pi / FLIGHT_SPEED))) f"
    unfolding enRoute_def past by simp
qed

text \<open>
  C1 as stated fails: a sequence of calls can step over both windows. For the flight of
  the example the calls below come before the start, at half of the way and after the
  end, and neither branch is ever taken.
\<close>

theorem transitions_skipped_counterexample:
  "(case loadFlightData [exampleRow] of
      Inl e \<Rightarrow> False
    | Inr w \<Rightarrow>
        departureCount 0
          [Fin 0, Fin (600 + 0.5 * (pi / FLIGHT_SPEED)), Fin (600 + 1.5 * (pi / FLIGHT_SPEED))]
          w = 0 \<and>
        arrivalCount 0
          [Fin 0, Fin (600 + 0.5 * (pi / FLIGHT_SPEED)), Fin (600 + 1.5 * (pi / FLIGHT_SPEED))]
          w = 0)"
proof -
  obtain f w where w: "loadFlightData [exampleRow] = Inr w" "flights w = [f]"
    and f: "startTime f = Fin 600" "duration f = Fin (pi / FLIGHT_SPEED)"
    using exampleRow_load by force
  let ?cs = "[Fin 0, Fin (600 + 0.5 * (pi / FLIGHT_SPEED)),
      Fin (600 + 1.5 * (pi / FLIGHT_SPEED))]"
  note quiet = example_not_fired [OF f]
  have "\<not> departureFires (Fin 0) f" "\<not> arrivalFires (Fin 0) f"
      "\<not> departureFires (Fin (600 + 1.5 * (pi / FLIGHT_SPEED))) f"
      "\<not> arrivalFires (Fin (600 + 1.5 * (pi / FLIGHT_SPEED))) f"
    using quiet(1,4) by (simp_all only: departureFires_def arrivalFires_def simp_thms)
  with quiet(2,3)
  have "\<forall>c \<in> set ?cs. \<not> departureFires c (flights w ! 0) \<and> \<not> arrivalFires c (flights w ! 0)"
    unfolding w(2) by (simp only: list.set ball_simps nth_Cons_0 simp_thms)
  moreover have "0 < length (flights w)" by (simp add: w(2))
  ultimately have "departureCount 0 ?cs w = 0 \<and> arrivalCount 0 ?cs w = 0"
    by (intro quiet_counts)
  then show ?thesis unfolding w(1) sum.case .
qed

lemma find_updateFirst_same:
  assumes "\<And>a. P (g a) = P a"
  shows "find P (updateFirst P g xs) = map_option g (find P xs)"
  using assms by (induction xs) simp_all

lemma find_updateFirst_other:
  assumes "\<And>a. Q (g a) = Q a" "\<And>a. P a \<Longrightarrow> \<not> Q a"
  shows "find Q (updateFirst P g xs) = find Q xs"
  using assms by (induction xs) auto

lemma planesAt_addPlanes:
  "planesAt la lo (addPlanes la' lo' n stars) =
     map_option (\<lambda>p. p + (if la = la' \<and> lo = lo' then n else 0)) (planesAt la lo stars)"
proof (cases "find (hasKey la' lo') stars")
  case None
  then show ?thesis
    by (cases "la = la' \<and> lo = lo'")
       (auto simp add: addPlanes_def planesAt_def option.map_ident)
next
  case (Some a)
  let ?g = "\<lambda>a. a\<lparr>planes := planes a + n\<rparr>"
  have add: "addPlanes la' lo' n stars = updateFirst (hasKey la' lo') ?g stars"
    by (simp add: addPlanes_def Some)
  show ?thesis
  proof (cases "la = la' \<and> lo = lo'")
    case True
    have "find (hasKey la' lo') (updateFirst (hasKey la' lo') ?g stars) =
        map_option ?g (find (hasKey la' lo') stars)"
      by (rule find_updateFirst_same) (simp add: hasKey_def)
    with True show ?thesis
      by (simp add: add planesAt_def option.map_comp comp_def)
  next
    case False
    have "find (hasKey la lo) (updateFirst (hasKey la' lo') ?g stars) =
        find (hasKey la lo) stars"
      using False by (intro find_updateFirst_other) (auto simp add: hasKey_def)
    with False show ?thesis
      by (auto simp add: add planesAt_def option.map_ident)
  qed
qed

lemma flightDelta_tick:
  "flightDelta la lo f (tickFlight c f) =
     (if arrivalFires c f \<and> destination_lat (data f) = la \<and> destination_lon (data f) = lo
      then 1 else 0) -
     (if departureFires c f \<and> origin_lat (data f) = la \<and> origin_lon (data f) = lo
      then 1 else 0)"
  by (auto simp add: flightDelta_def tickFlight_def departureFires_def arrivalFires_def)

lemma map_option_add_add:
  "map_option (\<lambda>p::int. p + b) (map_option (\<lambda>p. p + a) x) = map_option (\<lambda>p. p + (a + b)) x"
  by (cases x) simp_all

lemma map_option_add_0: "map_option (\<lambda>p::int. p + 0) x = x"
  by (cases x) simp_all

lemma updatePlane_planesAt:
  "planesAt la lo (airportStars (updatePlane c i w)) =
     map_option (\<lambda>p. p + flightDelta la lo (flights w ! i) (tickFlight c (flights w ! i)))
       (planesAt la lo (airportStars w))"
proof -
  let ?f = "flights w ! i"
  consider (dep) "departureFires c ?f" | (arr) "\<not> departureFires c ?f" "arrivalFires c ?f"
    | (quiet) "\<not> departureFires c ?f" "\<not> arrivalFires c ?f"
    by blast
  then show ?thesis
  proof cases
    case dep
    then have "\<not> arrivalFires c ?f" by (simp add: arrivalFires_def)
    with dep show ?thesis
      by (simp add: updatePlane_airportStars Let_def planesAt_addPlanes flightDelta_tick)
  next
    case arr
    then show ?thesis
      by (simp add: updatePlane_airportStars Let_def planesAt_addPlanes flightDelta_tick)
  next
    case quiet
    then show ?thesis
      by (simp add: updatePlane_airportStars Let_def flightDelta_tick option.map_ident)
  qed
qed


lemma fold_updatePlane_planesAt:
  assumes "n \<le> length (flights w)"
  shows "planesAt la lo (airportStars (fold (updatePlane c) [0 ..< n] w)) =
           map_option (\<lambda>p. p + sum_list (map (\<lambda>f. flightDelta la lo f (tickFlight c f))
                                        (take n (flights w))))
             (planesAt la lo (airportStars w))"
  using assms
proof (induction n)
  case 0
  show ?case by (simp add: option.map_ident)
next
  case (Suc n)
  let ?w = "fold (updatePlane c) [0 ..< n] w"
  let ?d = "\<lambda>f. flightDelta la lo f (tickFlight c f)"
  have n: "n < length (flights w)" using Suc.prems by simp
  have "flights ?w = map (tickFlight c) (take n (flights w)) @ drop n (flights w)"
    using n by (simp add: fold_updatePlane_flights)
  then have nth: "flights ?w ! n = flights w ! n"
    using n by (simp add: nth_append)
  have "planesAt la lo (airportStars (fold (updatePlane c) [0 ..< Suc n] w)) =
      planesAt la lo (airportStars (updatePlane c n ?w))"
    by simp
  also have "\<dots> = map_option (\<lambda>p. p + ?d (flights w ! n)) (planesAt la lo (airportStars ?w))"
    by (simp only: updatePlane_planesAt nth)
  also have "\<dots> = map_option (\<lambda>p. p + ?d (flights w ! n))
      (map_option (\<lambda>p. p + sum_list (map ?d (take n (flights w))))
         (planesAt la lo (airportStars w)))"
    using Suc.IH n by simp
  also have "\<dots> = map_option (\<lambda>p. p + (sum_list (map ?d (take n (flights w))) +
      ?d (flights w ! n))) (planesAt la lo (airportStars w))"
    by (rule map_option_add_add)
  also have "sum_list (map ?d (take n (flights w))) + ?d (flights w ! n) =
      sum_list (map ?d (take (Suc n) (flights w)))"
    using n by (simp add: take_Suc_conv_app_nth)
  finally show ?case .
qed

lemma updateInstancedPlanes_planesAt:
  "planesAt la lo (airportStars (updateInstancedPlanes c w)) =
     map_option (\<lambda>p. p + sum_list (map (\<lambda>f. flightDelta la lo f (tickFlight c f)) (flights w)))
       (planesAt la lo (airportStars w))"
proof (cases "flights w = []")
  case True
  then show ?thesis by (simp add: updateInstancedPlanes_def option.map_ident)
next
  case False
  then show ?thesis
    using fold_updatePlane_planesAt [of "length (flights w)" w la lo c]
    by (simp add: updateInstancedPlanes_def)
qed

lemma ticks_flights: "flights (ticks cs w) = map (fold tickFlight cs) (flights w)"
proof (induction cs arbitrary: w)
  case Nil
  show ?case by simp
next
  case (Cons c cs)
  show ?case by (simp add: Cons.IH updateInstancedPlanes_flights)
qed

lemma tickFlight_data [simp]: "data (tickFlight c f) = data f"
  by (simp add: tickFlight_def)

lemma fold_tickFlight_keeps:
  "data (fold tickFlight cs f) = data f"
  "departed f \<Longrightarrow> departed (fold tickFlight cs f)"
  "arrived f \<Longrightarrow> arrived (fold tickFlight cs f)"
  by (induction cs arbitrary: f) (simp_all add: tickFlight_departed tickFlight_arrived)

lemma flightDelta_chain:
  assumes "data g = data f"
    and "departed f \<Longrightarrow> departed g" and "departed g \<Longrightarrow> departed h"
    and "arrived f \<Longrightarrow> arrived g" and "arrived g \<Longrightarrow> arrived h"
  shows "flightDelta la lo f g + flightDelta la lo g h = flightDelta la lo f h"
  using assms by (auto simp add: flightDelta_def)

lemma ticks_planesAt:
  "planesAt la lo (airportStars (ticks cs w)) =
     map_option (\<lambda>p. p + sum_list (map (\<lambda>f. flightDelta la lo f (fold tickFlight cs f))
                                  (flights w)))
       (planesAt la lo (airportStars w))"
proof (induction cs arbitrary: w)
  case Nil
  have "flightDelta la lo f f = 0" for f by (simp add: flightDelta_def)
  then show ?case by (simp add: option.map_ident)
next
  case (Cons c cs)
  let ?w = "updateInstancedPlanes c w"
  let ?a = "\<lambda>f. flightDelta la lo f (tickFlight c f)"
  let ?b = "\<lambda>f. flightDelta la lo (tickFlight c f) (fold tickFlight cs (tickFlight c f))"
  have chain: "?a f + ?b f = flightDelta la lo f (fold tickFlight (c # cs) f)" for f
    using flightDelta_chain [of "tickFlight c f" f "fold tickFlight cs (tickFlight c f)" la lo]
    by (simp add: tickFlight_departed tickFlight_arrived fold_tickFlight_keeps)
  have "planesAt la lo (airportStars (ticks (c # cs) w)) =
      map_option (\<lambda>p. p + sum_list (map (\<lambda>f. flightDelta la lo f (fold tickFlight cs f))
                                   (flights ?w)))
        (planesAt la lo (airportStars ?w))"
    by (simp add: Cons.IH)
  also have "sum_list (map (\<lambda>f. flightDelta la lo f (fold tickFlight cs f)) (flights ?w)) =
      sum_list (map ?b (flights w))"
    by (simp add: updateInstancedPlanes_flights comp_def)
  also have "planesAt la lo (airportStars ?w) =
      map_option (\<lambda>p. p + sum_list (map ?a (flights w))) (planesAt la lo (airportStars w))"
    by (rule updateInstancedPlanes_planesAt)
  also have "map_option (\<lambda>p. p + sum_list (map ?b (flights w)))
      (map_option (\<lambda>p. p + sum_list (map ?a (flights w))) (planesAt la lo (airportStars w))) =
      map_option (\<lambda>p. p + (sum_list (map ?a (flights w)) + sum_list (map ?b (flights w))))
        (planesAt la lo (airportStars w))"
    by (rule map_option_add_add)
  also have "sum_list (map ?a (flights w)) + sum_list (map ?b (flights w)) =
      sum_list (map (\<lambda>f. flightDelta la lo f (fold tickFlight (c # cs) f)) (flights w))"
    by (simp only: sum_list_addf [symmetric] chain)
  finally show ?case .
qed

lemma int_length_filter:
  "int (length (filter P xs)) = sum_list (map (\<lambda>x. if P x then 1 else 0) xs)"
  by (induction xs) simp_all

lemma sum_flightDelta:
  "sum_list (map (\<lambda>f. flightDelta la lo f (g f)) fs) =
     int (arrivalsAt la lo fs (map g fs)) - int (departuresFrom la lo fs (map g fs))"
proof -
  have z: "zip fs (map g fs) = map (\<lambda>f. (f, g f)) fs"
    by (induction fs) simp_all
  show ?thesis
    by (simp add: arrivalsAt_def departuresFrom_def z int_length_filter filter_map comp_def
        flightDelta_def sum_list_subtractf length_filter_map)
qed

lemma ticks_airport_count:
  "planesAt la lo (airportStars (ticks cs w)) =
     map_option (\<lambda>p. p - int (departuresFrom la lo (flights w) (flights (ticks cs w))) +
                      int (arrivalsAt la lo (flights w) (flights (ticks cs w))))
       (planesAt la lo (airportStars w))"
proof -
  have "(\<lambda>p::int. p + sum_list (map (\<lambda>f. flightDelta la lo f (fold tickFlight cs f)) (flights w))) =
      (\<lambda>p. p - int (departuresFrom la lo (flights w) (flights (ticks cs w))) +
            int (arrivalsAt la lo (flights w) (flights (ticks cs w))))"
    by (rule ext) (simp add: sum_flightDelta ticks_flights)
  then show ?thesis by (simp only: ticks_planesAt)
qed

text \<open>
  C1, as the program has it. For every flight and every sequence of calls of
  \<open>updateInstancedPlanes\<close>, the departure branch and the arrival branch are each taken
  at most once, also when calls repeat a time, and a flag is set after the calls
  exactly when it was set before or its branch was taken. The counts follow the flags:
  the count that the program finds for any coordinates after the calls is the count
  before, less one for each flight from there whose \<open>departed\<close> went from false to
  true, plus one for each flight to there whose \<open>arrived\<close> went from false to true.
  So no flight takes a plane from its origin, or adds one to its destination, more
  than once.
\<close>

theorem transitions_fire_at_most_once:
  assumes "index < length (flights w)"
  shows "departureCount index cs w \<le> 1 \<and> arrivalCount index cs w \<le> 1 \<and>
         (departed (flights (ticks cs w) ! index) \<longleftrightarrow>
            departed (flights w ! index) \<or> departureCount index cs w = 1) \<and>
         (arrived (flights (ticks cs w) ! index) \<longleftrightarrow>
            arrived (flights w ! index) \<or> arrivalCount index cs w = 1) \<and>
         planesAt la lo (airportStars (ticks cs w)) =
           map_option (\<lambda>p. p - int (departuresFrom la lo (flights w) (flights (ticks cs w))) +
                            int (arrivalsAt la lo (flights w) (flights (ticks cs w))))
             (planesAt la lo (airportStars w))"
  using departureCount_flag [OF assms, of cs] arrivalCount_flag [OF assms, of cs]
    ticks_airport_count [of la lo cs w]
  by blast

theorem transitions_fire_at_most_once_witness:
  "(case loadFlightData [exampleRow] of
      Inl e \<Rightarrow> False
    | Inr w \<Rightarrow>
        0 < length (flights w) \<and>
        departureCount 0 [Fin 600, Fin 600, Fin 700] w = 1 \<and>
        arrivalCount 0 [Fin 600, Fin 600, Fin 700] w \<le> 1 \<and>
        \<not> departed (flights w ! 0) \<and>
        departed (flights (ticks [Fin 600, Fin 600, Fin 700] w) ! 0) \<and>
        (arrived (flights (ticks [Fin 600, Fin 600, Fin 700] w) ! 0) \<longleftrightarrow>
           arrived (flights w ! 0) \<or> arrivalCount 0 [Fin 600, Fin 600, Fin 700] w = 1) \<and>
        departuresFrom 0 0 (flights w) (flights (ticks [Fin 600, Fin 600, Fin 700] w)) = 1 \<and>
        arrivalsAt 0 0 (flights w) (flights (ticks [Fin 600, Fin 600, Fin 700] w)) = 0 \<and>
        planesAt 0 0 (airportStars w) = Some 1 \<and>
        planesAt 0 0 (airportStars (ticks [Fin 600, Fin 600, Fin 700] w)) = Some 0)"
proof -
  let ?cs = "[Fin 600, Fin 600, Fin 700]"
  obtain f w where w: "loadFlightData [exampleRow] = Inr w" "flights w = [f]"
      "airportStars w = [\<lparr> lat = 0, lon = 0, planes = 1 \<rparr>, \<lparr> lat = 0, lon = 180, planes = 0 \<rparr>]"
    and f: "data f = exampleRow" "startTime f = Fin 600" "duration f = Fin (pi / FLIGHT_SPEED)"
      "\<not> departed f" "\<not> arrived f"
    using exampleRow_load by force
  have h: "0 < length (flights w)" by (simp add: w(2))
  have nth: "flights w ! 0 = f" by (simp add: w(2))
  note main = transitions_fire_at_most_once [OF h, of ?cs 0 0]
  have "flightProgress (Fin 600) f = Fin 0"
    using example_progress [OF f(2,3), of 0] by simp
  then have fires: "departureFires (Fin 600) f"
    unfolding departureFires_def enRoute_def using f(4) by (simp add: js_ge_def)
  then have "1 \<le> departureCount 0 ?cs w" by (simp add: nth)
  with main have count: "departureCount 0 ?cs w = 1" by linarith
  with main have after: "departed (flights (ticks ?cs w) ! 0)" by blast
  have "flights (ticks ?cs w) = [fold tickFlight ?cs f]"
    unfolding ticks_flights w(2) by simp
  then obtain f' where f': "flights (ticks ?cs w) = [f']" by blast
  have after': "departed f'" using after unfolding f' by simp
  have dep: "departuresFrom 0 0 (flights w) (flights (ticks ?cs w)) = 1"
    unfolding f' w(2) using after' f(1,4) by (simp add: departuresFrom_def exampleRow_def)
  have arr: "arrivalsAt 0 0 (flights w) (flights (ticks ?cs w)) = 0"
    unfolding f' w(2) using f(1) by (simp add: arrivalsAt_def exampleRow_def)
  have before: "planesAt 0 0 (airportStars w) = Some 1"
    by (simp add: planesAt_def w(3) hasKey_def)
  have "planesAt 0 0 (airportStars (ticks ?cs w)) =
      map_option (\<lambda>p. p - int 1 + int 0) (Some 1)"
    using main unfolding dep arr before by blast
  then have "planesAt 0 0 (airportStars (ticks ?cs w)) = Some 0" by simp
  with h count after dep arr before main f(4) show ?thesis
    unfolding w(1) sum.case nth by blast
qed

text \<open>
  C8. When a flight takes the departure branch and no airport has the coordinates of
  its origin, the airports are left as they are and \<open>departed\<close> is set all the same;
  likewise for the arrival branch, the destination and \<open>arrived\<close>. The model has no
  error result for the step, as the program raises none.
\<close>

theorem unmatched_airport_is_skipped:
  assumes "index < length (flights w)"
  shows "(departureFires c (flights w ! index) \<and>
          find (hasKey (origin_lat (data (flights w ! index)))
                  (origin_lon (data (flights w ! index)))) (airportStars w) = None \<longrightarrow>
            airportStars (updatePlane c index w) = airportStars w \<and>
            departed (flights (updatePlane c index w) ! index)) \<and>
         (arrivalFires c (flights w ! index) \<and>
          find (hasKey (destination_lat (data (flights w ! index)))
                  (destination_lon (data (flights w ! index)))) (airportStars w) = None \<longrightarrow>
            airportStars (updatePlane c index w) = airportStars w \<and>
            arrived (flights (updatePlane c index w) ! index))"
  using assms
  by (auto simp add: updatePlane_airportStars updatePlane_flights find_None_addPlanes
      tickFlight_departed tickFlight_arrived Let_def dest: arrivalFires_not_departure)

theorem unmatched_airport_is_skipped_witness:
  "(case loadFlightData [exampleRow] of
      Inl e \<Rightarrow> False
    | Inr w \<Rightarrow>
        0 < length (flights (w\<lparr>airportStars := []\<rparr>)) \<and>
        departureFires (Fin 600) (flights (w\<lparr>airportStars := []\<rparr>) ! 0) \<and>
        find (hasKey (origin_lat (data (flights (w\<lparr>airportStars := []\<rparr>) ! 0)))
               (origin_lon (data (flights (w\<lparr>airportStars := []\<rparr>) ! 0))))
          (airportStars (w\<lparr>airportStars := []\<rparr>)) = None \<and>
        airportStars (updatePlane (Fin 600) 0 (w\<lparr>airportStars := []\<rparr>)) =
          airportStars (w\<lparr>airportStars := []\<rparr>) \<and>
        departed (flights (updatePlane (Fin 600) 0 (w\<lparr>airportStars := []\<rparr>)) ! 0) \<and>
        arrivalFires (Fin (600 + 1 * (pi / FLIGHT_SPEED))) (flights (w\<lparr>airportStars := []\<rparr>) ! 0) \<and>
        find (hasKey (destination_lat (data (flights (w\<lparr>airportStars := []\<rparr>) ! 0)))
               (destination_lon (data (flights (w\<lparr>airportStars := []\<rparr>) ! 0))))
          (airportStars (w\<lparr>airportStars := []\<rparr>)) = None \<and>
        airportStars (updatePlane (Fin (600 + 1 * (pi / FLIGHT_SPEED))) 0
            (w\<lparr>airportStars := []\<rparr>)) =
          airportStars (w\<lparr>airportStars := []\<rparr>) \<and>
        arrived (flights (updatePlane (Fin (600 + 1 * (pi / FLIGHT_SPEED))) 0
            (w\<lparr>airportStars := []\<rparr>)) ! 0))"
proof -
  obtain f w where w: "loadFlightData [exampleRow] = Inr w" "flights w = [f]"
    and f: "startTime f = Fin 600" "duration f = Fin (pi / FLIGHT_SPEED)"
      "\<not> departed f" "\<not> arrived f"
    using exampleRow_load by force
  let ?w = "w\<lparr>airportStars := []\<rparr>"
  have h: "0 < length (flights ?w)" by (simp add: w(2))
  have nth: "flights ?w ! 0 = f" by (simp add: w(2))
  have "flightProgress (Fin 600) f = Fin 0"
    using example_progress [OF f(1,2), of 0] by simp
  then have dep: "departureFires (Fin 600) (flights ?w ! 0)"
    unfolding nth departureFires_def enRoute_def using f(3) by (simp add: js_ge_def)
  have one: "flightProgress (Fin (600 + 1 * (pi / FLIGHT_SPEED))) f = Fin 1"
    by (rule example_progress [OF f(1,2)])
  have arr: "arrivalFires (Fin (600 + 1 * (pi / FLIGHT_SPEED))) (flights ?w ! 0)"
    unfolding nth arrivalFires_def departureFires_def enRoute_def one
    using f(4) by (simp add: js_ge_def js_gt_def)
  have none: "find (hasKey la lo) (airportStars ?w) = None" for la lo by simp
  show ?thesis
    using h dep arr none
      unmatched_airport_is_skipped [OF h, of "Fin 600"]
      unmatched_airport_is_skipped [OF h, of "Fin (600 + 1 * (pi / FLIGHT_SPEED))"]
    unfolding w(1) sum.case
    by blast
qed

subsection \<open>Flights of duration zero\<close>

lemma zero_duration_not_enRoute:
  assumes "duration f = Fin 0"
  shows "\<not> enRoute c f"
  using assms
  by (cases c; cases "startTime f")
     (auto simp add: enRoute_def flightProgress_def js_sub_def js_ge_def js_inf_def)

lemma zero_duration_update:
  assumes "duration f = Fin 0" "curvePoints f \<noteq> []"
  shows "update c f = Some (markAdded c f)"
  using assms
  by (cases c; cases "startTime f"; cases "curvePoints f")
     (auto simp add: update_def updateTraced_def targetSegmentIndex_def flightProgress_def
        js_sub_def js_gt_def js_inf_def Let_def)

text \<open>
  C4 as stated fails. For the row whose origin and destination coincide, the call at
  simulated time \<open>5\<close>, after the start at \<open>0\<close>, has progress \<open>5 / 0\<close>, which is
  \<open>Infinity\<close> and not \<open>1\<close>: the call changes nothing, neither flag is set and the count
  of the airport stays \<open>1\<close>.
\<close>

theorem coincident_flight_counterexample:
  "(case loadFlightData [coincidentRow] of
      Inl e \<Rightarrow> False
    | Inr w \<Rightarrow>
        duration (flights w ! 0) = Fin 0 \<and>
        js_ge (Fin 5) (startTime (flights w ! 0)) \<and>
        flightProgress (Fin 5) (flights w ! 0) = PInf \<and>
        \<not> departed (flights (updateInstancedPlanes (Fin 5) w) ! 0) \<and>
        \<not> arrived (flights (updateInstancedPlanes (Fin 5) w) ! 0) \<and>
        airportStars (updateInstancedPlanes (Fin 5) w) =
          [\<lparr> lat = 10, lon = 20, planes = 1 \<rparr>])"
proof -
  obtain f w where w: "loadFlightData [coincidentRow] = Inr w" "flights w = [f]"
      "airportStars w = [\<lparr> lat = 10, lon = 20, planes = 1 \<rparr>]"
    and f: "startTime f = Fin 0" "duration f = Fin 0" "\<not> departed f" "\<not> arrived f"
    using coincidentRow_load by force
  have nth: "flights w ! 0 = f" by (simp add: w(2))
  have "\<not> enRoute (Fin 5) (flights w ! 0)"
    unfolding nth using f(2) by (rule zero_duration_not_enRoute)
  then have "updatePlane (Fin 5) 0 w = w" by (rule updatePlane_not_enRoute)
  then have same: "updateInstancedPlanes (Fin 5) w = w"
    by (simp add: updateInstancedPlanes_def w(2))
  have "flightProgress (Fin 5) f = PInf"
    by (simp add: flightProgress_def f js_sub_def)
  then show ?thesis
    unfolding w(1) sum.case same nth w(3)
    using f by (simp add: js_ge_def)
qed

text \<open>
  C4, as the program has it. A flight whose origin and destination coincide has
  duration \<open>0\<close>. Its progress is then a division by zero, which does not raise but gives
  \<open>NaN\<close> or an infinity, never a number between \<open>0\<close> and \<open>1\<close>: no call of
  \<open>updateInstancedPlanes\<close> takes the departure or the arrival branch for it, at any time,
  and \<open>update\<close> returns with no segment revealed.
\<close>

theorem coincident_flight_never_transitions:
  assumes "loadFlightData rows = Inr w" and "index < length (flights w)"
    and "origin_lat (data (flights w ! index)) = destination_lat (data (flights w ! index))"
    and "origin_lon (data (flights w ! index)) = destination_lon (data (flights w ! index))"
  shows "duration (flights w ! index) = Fin 0 \<and>
         \<not> enRoute c (flights w ! index) \<and>
         departureCount index cs w = 0 \<and> arrivalCount index cs w = 0 \<and>
         \<not> departed (flights (ticks cs w) ! index) \<and>
         \<not> arrived (flights (ticks cs w) ! index) \<and>
         (\<exists>f'. update c (flights w ! index) = Some f' \<and> dynamicSegmentIndex f' = 0)"
proof -
  let ?f = "flights w ! index"
  have built: "newFlight (data ?f) = Inr ?f"
    using assms(1,2) by (rule loadFlightData_built)
  then have "duration ?f = calculateDuration (data ?f)"
    and init: "\<not> departed ?f" "\<not> arrived ?f" "dynamicSegmentIndex ?f = 0"
    by (auto simp add: newFlight_eq) (metis Flight.select_convs)+
  with assms(3,4) have zero: "duration ?f = Fin 0"
    by (simp add: coincident_duration)
  have quiet: "\<not> enRoute t ?f" for t
    using zero by (rule zero_duration_not_enRoute)
  then have "\<forall>t \<in> set cs. \<not> departureFires t ?f \<and> \<not> arrivalFires t ?f"
    by (simp add: departureFires_def arrivalFires_def)
  with assms(2) have counts: "departureCount index cs w = 0 \<and> arrivalCount index cs w = 0"
    by (rule quiet_counts)
  have "\<not> departed (flights (ticks cs w) ! index)"
    using departureCount_flag [OF assms(2), of cs] counts init(1) by simp
  moreover have "\<not> arrived (flights (ticks cs w) ! index)"
    using arrivalCount_flag [OF assms(2), of cs] counts init(2) by simp
  moreover have "update c ?f = Some (markAdded c ?f)"
    using zero newFlight_wellformed(2) [OF built] by (rule zero_duration_update)
  ultimately show ?thesis
    using zero quiet [of c] counts init(3) by simp
qed

theorem coincident_flight_never_transitions_witness:
  "(case loadFlightData [coincidentRow] of
      Inl e \<Rightarrow> False
    | Inr w \<Rightarrow>
        0 < length (flights w) \<and>
        origin_lat (data (flights w ! 0)) = destination_lat (data (flights w ! 0)) \<and>
        origin_lon (data (flights w ! 0)) = destination_lon (data (flights w ! 0)) \<and>
        duration (flights w ! 0) = Fin 0 \<and>
        \<not> enRoute (Fin 5) (flights w ! 0) \<and>
        departureCount 0 [Fin 0, Fin 5] w = 0 \<and> arrivalCount 0 [Fin 0, Fin 5] w = 0 \<and>
        \<not> departed (flights (ticks [Fin 0, Fin 5] w) ! 0) \<and>
        \<not> arrived (flights (ticks [Fin 0, Fin 5] w) ! 0) \<and>
        (\<exists>f'. update (Fin 5) (flights w ! 0) = Some f' \<and> dynamicSegmentIndex f' = 0))"
proof -
  obtain f w where w: "loadFlightData [coincidentRow] = Inr w" "flights w = [f]"
    and f: "data f = coincidentRow"
    using coincidentRow_load by force
  have h: "0 < length (flights w)" by (simp add: w(2))
  have la: "origin_lat (data (flights w ! 0)) = destination_lat (data (flights w ! 0))"
    and lo: "origin_lon (data (flights w ! 0)) = destination_lon (data (flights w ! 0))"
    by (simp_all add: w(2) f coincidentRow_def)
  show ?thesis
    using h la lo
      coincident_flight_never_transitions [OF w(1) h la lo, of "Fin 5" "[Fin 0, Fin 5]"]
    unfolding w(1) sum.case
    by blast
qed

subsection \<open>The acceleration of the clock\<close>

text \<open>
  C3 as stated fails. With the initial acceleration \<open>288\<close> the simulated time at real
  time \<open>10\<close> is \<open>2880\<close>. After the slider is moved to \<open>10\<close> the acceleration is \<open>144\<close>,
  and at real time \<open>20\<close> the simulated time is \<open>20 * 144 = 2880\<close>: the ten seconds
  before the change are rescaled too. Keeping their scale would give \<open>4320\<close>.
\<close>

theorem acceleration_change_counterexample:
  "(case loadFlightData [exampleRow] of
      Inl e \<Rightarrow> False
    | Inr w \<Rightarrow>
        TIME_ACCELERATION w = Fin 288 \<and>
        simulatedTime 10 w = Fin 2880 \<and>
        TIME_ACCELERATION (speedSliderInput ''10'' w) = Fin 144 \<and>
        simulatedTime 20 (speedSliderInput ''10'' w) = Fin 2880 \<and>
        spec_piecewiseTime 288 144 10 20 = 4320 \<and>
        simulatedTime 20 (speedSliderInput ''10'' w) \<noteq>
          Fin (spec_piecewiseTime 288 144 10 20))"
proof -
  obtain w where w: "loadFlightData [exampleRow] = Inr w" "TIME_ACCELERATION w = Fin 288"
    using exampleRow_load by force
  have n: "Number_js ''10'' = Fin 10" by (simp add: Number_js_eval)
  show ?thesis
    unfolding w(1) sum.case
    by (simp add: w(2) simulatedTime_def speedSliderInput_def n spec_piecewiseTime_def)
qed

text \<open>
  C3, as the program has it. The simulated time of a frame is the whole real time
  elapsed since the clock started, multiplied by the acceleration stored by the last
  input to the slider. It does not depend on the acceleration before the change, nor
  on the moment of the change.
\<close>

theorem simulated_time_uses_current_acceleration:
  "simulatedTime elapsed (speedSliderInput v w) =
     js_mul (Fin elapsed) (js_div (Fin 1440) (Number_js v))"
  by (simp add: simulatedTime_def speedSliderInput_def)







subsection \<open>The pick query\<close>

lemma raycast_Suc:
  "raycast hit near far (Suc n) xs = raycastInstance hit near far n (raycast hit near far n xs)"
  by (simp add: raycast_def)

lemma raycast_set:
  "set (raycast hit near far n xs) = set xs \<union> inWindow hit near far n"
proof (induction n)
  case 0
  show ?case by (simp add: raycast_def inWindow_def)
next
  case (Suc n)
  have "inWindow hit near far (Suc n) =
      inWindow hit near far n \<union>
      (case hit n of None \<Rightarrow> {}
       | Some d \<Rightarrow> if js_lt (Fin d) near \<or> js_gt (Fin d) far then {} else {(d, n)})"
    by (auto simp add: inWindow_def less_Suc_eq split: option.splits if_splits)
  then show ?case
    by (auto simp add: raycast_Suc raycastInstance_def Suc split: option.splits)
qed

lemma intersectObject_set:
  "set (intersectObject hit near far n) = inWindow hit near far n"
  by (simp add: intersectObject_def raycast_set)

lemma intersectObject_sorted:
  "sorted (map fst (intersectObject hit near far n))"
  by (simp add: intersectObject_def)

lemma intersectObject_head:
  assumes "intersectObject hit near far n = (d, i) # rest"
  shows "(d, i) \<in> inWindow hit near far n"
    and "\<forall>(d', j) \<in> inWindow hit near far n. d \<le> d'"
proof -
  have "(d, i) \<in> set (intersectObject hit near far n)" by (simp add: assms)
  then show "(d, i) \<in> inWindow hit near far n" by (simp add: intersectObject_set)
  have "sorted (map fst ((d, i) # rest))"
    using intersectObject_sorted [of hit near far n] by (simp add: assms)
  then have "\<forall>p \<in> set ((d, i) # rest). d \<le> fst p" by auto
  moreover have "inWindow hit near far n = set ((d, i) # rest)"
    using intersectObject_set [of hit near far n] by (simp only: assms)
  ultimately have "\<forall>p \<in> inWindow hit near far n. d \<le> fst p"
    by (simp only:)
  then show "\<forall>(d', j) \<in> inWindow hit near far n. d \<le> d'" by auto
qed

text \<open>
  C9 as stated fails where it restricts the query to active slots: the loop visits
  every instance. Before the flight of the example has started, its instance still has
  the identity matrix; a ray that meets the sphere of that instance at distance \<open>2\<close>
  is reported as a hit of the flight, although no flight is en route.
\<close>

theorem inactive_slot_picked_counterexample:
  "(case loadFlightData [exampleRow] of
      Inl e \<Rightarrow> False
    | Inr w \<Rightarrow>
        \<not> enRoute (Fin 0) (flights w ! 0) \<and>
        length (flights w) = 1 \<and>
        instanceMatrix (updateInstancedPlanes (Fin 0) w) = [Identity] \<and>
        pick [] (\<lambda>i. if i = 0 then Some 2 else None) (Fin 0) PInf
          (updateInstancedPlanes (Fin 0) w) = FlightPick 0)"
proof -
  obtain f w where w: "loadFlightData [exampleRow] = Inr w" "flights w = [f]"
      "instanceMatrix w = [Identity]"
    and f: "startTime f = Fin 600" "duration f = Fin (pi / FLIGHT_SPEED)"
    using exampleRow_load by force
  have nth: "flights w ! 0 = f" by (simp add: w(2))
  have quiet: "\<not> enRoute (Fin 0) (flights w ! 0)"
    unfolding nth by (rule example_not_fired(1) [OF f])
  then have "updatePlane (Fin 0) 0 w = w" by (rule updatePlane_not_enRoute)
  then have same: "updateInstancedPlanes (Fin 0) w = w"
    by (simp add: updateInstancedPlanes_def w(2))
  have "pick [] (\<lambda>i. if i = 0 then Some 2 else None) (Fin 0) PInf w = FlightPick 0"
    by (simp add: pick_def intersectObject_def raycast_def raycastInstance_def js_gt_def
        w(2,3))
  with quiet show ?thesis
    unfolding w(1) sum.case same by (simp add: w(2,3))
qed

text \<open>
  C9, as the program has it. When no airport marker is hit, the pointer handler reports
  the instance of a closest hit among the hits of all plane instances whose distance
  lies within \<open>near\<close> and \<open>far\<close>, whether the flight of the instance is en route or not;
  it reports nothing exactly when no instance has such a hit. A hit airport marker is
  reported before any plane.
\<close>

theorem pick_reports_closest_instance:
  assumes "length (instanceMatrix w) = length (flights w)"
  shows "(pick [] hit near far w = NoPick \<longleftrightarrow>
            inWindow hit near far (length (flights w)) = {}) \<and>
         (pick [] hit near far w = FlightPick i \<longrightarrow>
            (\<exists>d. (d, i) \<in> inWindow hit near far (length (flights w)) \<and>
               (\<forall>(d', j) \<in> inWindow hit near far (length (flights w)). d \<le> d'))) \<and>
         pick [] hit near far w \<noteq> AirportPick a \<and>
         pick (a # as) hit near far w = AirportPick a"
proof -
  let ?n = "length (flights w)"
  let ?hits = "intersectObject hit near far ?n"
  show ?thesis
  proof (cases ?hits)
    case Nil
    then have "inWindow hit near far ?n = {}"
      using intersectObject_set [of hit near far ?n] by simp
    with Nil show ?thesis by (simp add: pick_def assms)
  next
    case (Cons p rest)
    obtain d k where p: "p = (d, k)" by (cases p)
    note head = intersectObject_head [OF Cons [unfolded p]]
    from head(1) have k: "k < ?n" by (simp add: inWindow_def)
    then have "pick [] hit near far w = FlightPick k"
      by (simp add: pick_def assms Cons p)
    with head show ?thesis by (auto simp add: pick_def)
  qed
qed

theorem pick_reports_closest_instance_witness:
  "(case loadFlightData [exampleRow, coincidentRow] of
      Inl e \<Rightarrow> False
    | Inr w \<Rightarrow>
        length (instanceMatrix w) = length (flights w) \<and>
        pick [] (\<lambda>i. if i = 0 then Some 5 else Some 3) (Fin 0) PInf w = FlightPick 1 \<and>
        (\<exists>d. (d, 1) \<in> inWindow (\<lambda>i. if i = 0 then Some 5 else Some 3) (Fin 0) PInf
                  (length (flights w)) \<and>
           (\<forall>(d', j) \<in> inWindow (\<lambda>i. if i = 0 then Some 5 else Some 3) (Fin 0) PInf
                  (length (flights w)). d \<le> d')) \<and>
        inWindow (\<lambda>i. if i = 0 then Some 5 else Some 3) (Fin 0) PInf (length (flights w)) \<noteq> {} \<and>
        pick [] (\<lambda>i. if i = 0 then Some 5 else Some 3) (Fin 0) PInf w \<noteq> NoPick \<and>
        pick [7] (\<lambda>i. if i = 0 then Some 5 else Some 3) (Fin 0) PInf w = AirportPick 7)"
proof -
  have "length (filter (\<lambda>d. truthy (departure_time d)) [exampleRow, coincidentRow]) = 2"
    by (simp add: exampleRow_def coincidentRow_def)
  then obtain w where w: "loadFlightData [exampleRow, coincidentRow] = Inr w"
      "length (flights w) = 2" "instanceMatrix w = replicate (length (flights w)) Identity"
    using loadFlightData_ok [of "[exampleRow, coincidentRow]"] by metis
  let ?hit = "\<lambda>i::nat. if i = 0 then Some (5::real) else Some 3"
  have h: "length (instanceMatrix w) = length (flights w)" by (simp add: w)
  have "intersectObject ?hit (Fin 0) PInf 2 = [(3, 1), (5, 0)]"
    by (simp add: intersectObject_def raycast_def raycastInstance_def js_gt_def
        numeral_2_eq_2)
  then have p: "pick [] ?hit (Fin 0) PInf w = FlightPick 1"
    by (simp add: pick_def w)
  have q: "pick [] ?hit (Fin 0) PInf w \<noteq> NoPick" by (simp add: p)
  show ?thesis
    using h p q pick_reports_closest_instance [OF h, of ?hit "Fin 0" PInf 1 7 "[]"]
    unfolding w(1) sum.case
    by blast
qed

end
